theory Spec2Isabelle
  imports Complex_Main "HOL-Library.Char_ord" "HOL-Library.List_Lexorder"
begin

section \<open>Values, geometries and errors\<close>

text \<open>
  The notebooks are sequences of calls into pandas, geopandas, shapely, pathlib and
  owslib. The embedding keeps the notebooks' own glue (the lambda, the loops, the path
  expressions, the order of the cells) and models the library calls they go through
  by their documented behaviour on the values the notebooks hand them. Python floats
  are idealised as reals.
\<close>

datatype py_error =
    KeyError string
  | AttributeError string
  | TypeError string
  | ValueError string
  | IndexingError string
  | LibraryError string
  | NotModelled string

text \<open>
  \<open>LibraryError\<close> stands for any error that a library raises for reasons outside the
  data (a missing file, a failed request); \<open>NotModelled\<close> marks the few inputs on
  which a library function is not followed further.
\<close>

text \<open>
  A shapely geometry. Points carry two or three coordinates; the other geometry types
  are kept as coordinate lists, which is all the notebooks need of them.
\<close>

datatype geometry =
    Point2 real real
  | Point3 real real real
  | LineString "(real \<times> real) list"
  | Polygon "(real \<times> real) list"

fun has_z :: "geometry \<Rightarrow> bool" where
  "has_z (Point3 x y z) = True"
| "has_z g = False"

text \<open>The attributes \<open>x\<close>, \<open>y\<close>, \<open>z\<close> exist on points only.\<close>

fun geom_x :: "geometry \<Rightarrow> py_error + real" where
  "geom_x (Point2 x y) = Inr x"
| "geom_x (Point3 x y z) = Inr x"
| "geom_x g = Inl (AttributeError ''x'')"

fun geom_y :: "geometry \<Rightarrow> py_error + real" where
  "geom_y (Point2 x y) = Inr y"
| "geom_y (Point3 x y z) = Inr y"
| "geom_y g = Inl (AttributeError ''y'')"

fun geom_z :: "geometry \<Rightarrow> py_error + real" where
  "geom_z (Point3 x y z) = Inr z"
| "geom_z (Point2 x y) = Inl (LibraryError ''DimensionError'')"
| "geom_z g = Inl (AttributeError ''z'')"

text \<open>Sequencing of calls that may raise: the first error ends the computation.\<close>

fun bind :: "py_error + 'a \<Rightarrow> ('a \<Rightarrow> py_error + 'b) \<Rightarrow> py_error + 'b" where
  "bind (Inl e) f = Inl e"
| "bind (Inr v) f = f v"

text \<open>
  The value of one field of one row. A missing value (\<open>None\<close>, \<open>NaN\<close>) is \<open>NullV\<close>.
\<close>

datatype cell = IntV int | StrV string | NumV real | GeomV geometry | NullV

subsection \<open>The axis swap of the WFS script\<close>

text \<open>
  \<^verbatim>\<open>lambda geom: Point(geom.y, geom.x, geom.z) if geom.has_z else Point(geom.y, geom.x)\<close>
  The arguments are evaluated from left to right.
\<close>

definition swap_xy :: "geometry \<Rightarrow> py_error + geometry" where
  "swap_xy geom =
     (if has_z geom
      then bind (geom_y geom) (\<lambda>y. bind (geom_x geom) (\<lambda>x. bind (geom_z geom) (\<lambda>z.
             Inr (Point3 y x z))))
      else bind (geom_y geom) (\<lambda>y. bind (geom_x geom) (\<lambda>x. Inr (Point2 y x))))"

text \<open>
  The lambda applied to one value of the geometry column: a missing geometry is
  \<open>None\<close>, which has no attribute \<open>has_z\<close>; a value that is not a geometry has none
  either.
\<close>

fun swap_cell :: "cell \<Rightarrow> py_error + cell" where
  "swap_cell (GeomV g) = bind (swap_xy g) (\<lambda>g'. Inr (GeomV g'))"
| "swap_cell c = Inl (AttributeError ''has_z'')"

text \<open>\<open>Series.apply\<close>: the function is applied to the values in order, labels are kept.\<close>

fun series_apply ::
  "(cell \<Rightarrow> py_error + cell) \<Rightarrow> (int \<times> cell) list \<Rightarrow> py_error + (int \<times> cell) list" where
  "series_apply f [] = Inr []"
| "series_apply f ((l, c) # s) =
     bind (f c) (\<lambda>c'. bind (series_apply f s) (\<lambda>s'. Inr ((l, c') # s')))"


text \<open>
  The exchange of the specification: the first two coordinates of a point change
  places, a third coordinate stays.
\<close>

fun exchange_xy :: "geometry \<Rightarrow> geometry" where
  "exchange_xy (Point2 x y) = Point2 y x"
| "exchange_xy (Point3 x y z) = Point3 y x z"
| "exchange_xy g = g"

fun is_point :: "cell \<Rightarrow> bool" where
  "is_point (GeomV (Point2 x y)) = True"
| "is_point (GeomV (Point3 x y z)) = True"
| "is_point c = False"

fun exchanged :: "cell \<Rightarrow> cell" where
  "exchanged (GeomV g) = GeomV (exchange_xy g)"
| "exchanged c = c"

section \<open>Data frames\<close>

text \<open>
  A (Geo)DataFrame: the column names in order, and the rows in order, each with its
  index label and one value per column. A frame read from a file has the index labels
  \<open>0, 1, 2, \<dots>\<close>; selections keep the labels of the rows they keep. A Series is a
  list of labelled values.
\<close>

type_synonym series = "(int \<times> cell) list"

record frame =
  columns :: "string list"
  rows :: "(int \<times> cell list) list"

definition frame_ok :: "frame \<Rightarrow> bool" where
  "frame_ok df \<longleftrightarrow>
     distinct (columns df) \<and> list_all (\<lambda>(l, r). length r = length (columns df)) (rows df)"

text \<open>\<open>geopandas.read_file\<close>: the records of the file, labelled from 0.\<close>

definition read_frame :: "string list \<Rightarrow> cell list list \<Rightarrow> frame" where
  "read_frame cols recs = \<lparr>columns = cols, rows = zip (map int [0..<length recs]) recs\<rparr>"

text \<open>The value of column \<open>c\<close> in a row; \<open>row[c]\<close> raises \<open>KeyError\<close> without such a column.\<close>

definition cell_at :: "string list \<Rightarrow> cell list \<Rightarrow> string \<Rightarrow> cell" where
  "cell_at cols r c = (case map_of (zip cols r) c of Some v \<Rightarrow> v | None \<Rightarrow> NullV)"

definition row_getitem :: "string list \<Rightarrow> cell list \<Rightarrow> string \<Rightarrow> py_error + cell" where
  "row_getitem cols r c =
     (case map_of (zip cols r) c of Some v \<Rightarrow> Inr v | None \<Rightarrow> Inl (KeyError c))"

text \<open>\<open>df[c]\<close>: one column as a Series.\<close>

definition getitem_col :: "frame \<Rightarrow> string \<Rightarrow> py_error + series" where
  "getitem_col df c =
     (if c \<in> set (columns df)
      then Inr (map (\<lambda>(l, r). (l, cell_at (columns df) r c)) (rows df))
      else Inl (KeyError c))"

text \<open>
  \<open>df.c\<close>: Python looks the name up among the attributes of the frame object first,
  and only a name that is none of them reaches the columns. So \<open>df.area\<close> is the
  property of the geometries (below) even on a frame that has a column \<open>area\<close>.
  pandas and geopandas write the names of their own properties and methods in lower
  case or with a leading underscore, with the one exception \<open>T\<close>; the column names
  that the notebooks use as attributes (\<open>ID_CLASS\<close>) begin with a capital letter. A
  name that begins with a capital letter and is not \<open>T\<close> is therefore a column or
  an \<open>AttributeError\<close>; access to columns of other names this way is not modelled.
\<close>

definition own_attribute :: "string \<Rightarrow> bool" where
  "own_attribute c \<longleftrightarrow>
     c = [] \<or> c = ''T'' \<or> hd c \<notin> set ''ABCDEFGHIJKLMNOPQRSTUVWXYZ''"

definition getattr_col :: "frame \<Rightarrow> string \<Rightarrow> py_error + series" where
  "getattr_col df c =
     (if own_attribute c then Inl (NotModelled ''attribute'')
      else if c \<in> set (columns df)
      then Inr (map (\<lambda>(l, r). (l, cell_at (columns df) r c)) (rows df))
      else Inl (AttributeError c))"

text \<open>
  \<open>df.geometry\<close>: the geometry column of a GeoDataFrame, which in every frame of the
  notebooks is the column named \<open>geometry\<close>.
\<close>

definition frame_geometry :: "frame \<Rightarrow> py_error + series" where
  "frame_geometry df =
     (if ''geometry'' \<in> set (columns df)
      then Inr (map (\<lambda>(l, r). (l, cell_at (columns df) r ''geometry'')) (rows df))
      else Inl (AttributeError ''geometry''))"

text \<open>\<open>df[[c1, c2, ...]]\<close>: the named columns, in the order asked for.\<close>

definition getitem_cols :: "frame \<Rightarrow> string list \<Rightarrow> py_error + frame" where
  "getitem_cols df cs =
     (case filter (\<lambda>c. c \<notin> set (columns df)) cs of
        [] \<Rightarrow> Inr \<lparr>columns = cs,
                  rows = map (\<lambda>(l, r). (l, map (cell_at (columns df) r) cs)) (rows df)\<rparr>
      | c # _ \<Rightarrow> Inl (KeyError c))"

text \<open>
  \<open>df.rename(columns=m)\<close>: a column named by a key of the dictionary takes the new
  name, any other column keeps its own; keys that name no column are ignored.
\<close>

definition rename_columns :: "(string \<times> string) list \<Rightarrow> frame \<Rightarrow> frame" where
  "rename_columns m df =
     df\<lparr>columns := map (\<lambda>c. case map_of m c of Some c' \<Rightarrow> c' | None \<Rightarrow> c) (columns df)\<rparr>"

text \<open>
  \<open>s == v\<close>: the elementwise comparison, a boolean Series on the same labels.
  Numbers are compared by value, whether integer or float; a text equals the same
  text, a geometry the same geometry; values of different kinds are unequal, and a
  missing value equals nothing, not even a missing value.
\<close>

fun cell_eq :: "cell \<Rightarrow> cell \<Rightarrow> bool" where
  "cell_eq (IntV i) (IntV j) \<longleftrightarrow> i = j"
| "cell_eq (IntV i) (NumV y) \<longleftrightarrow> of_int i = y"
| "cell_eq (NumV x) (IntV j) \<longleftrightarrow> x = of_int j"
| "cell_eq (NumV x) (NumV y) \<longleftrightarrow> x = y"
| "cell_eq (StrV a) (StrV b) \<longleftrightarrow> a = b"
| "cell_eq (GeomV g) (GeomV h) \<longleftrightarrow> g = h"
| "cell_eq c d \<longleftrightarrow> False"

definition series_eq :: "series \<Rightarrow> cell \<Rightarrow> (int \<times> bool) list" where
  "series_eq s v = map (\<lambda>(l, c). (l, cell_eq c v)) s"

text \<open>
  \<open>df[mask]\<close> with a boolean Series: the rows whose mask value is true. A mask on
  the frame's own index is used by position; any other mask is aligned to the frame's
  labels first, which pandas refuses when the mask's labels repeat or do not cover the
  frame's.
\<close>

definition getitem_mask :: "frame \<Rightarrow> (int \<times> bool) list \<Rightarrow> py_error + frame" where
  "getitem_mask df msk =
     (if map fst msk = map fst (rows df)
      then Inr (df\<lparr>rows := map fst (filter snd (zip (rows df) (map snd msk)))\<rparr>)
      else if \<not> distinct (map fst msk) then Inl (ValueError ''reindex'')
      else if \<not> set (map fst (rows df)) \<subseteq> set (map fst msk)
      then Inl (IndexingError ''Unalignable boolean Series'')
      else Inr (df\<lparr>rows := filter (\<lambda>(l, r). map_of msk l = Some True) (rows df)\<rparr>))"

text \<open>
  \<open>df[c] = s\<close>: the values of the Series become column \<open>c\<close>, a new last column when
  the frame has none of that name. A Series on the frame's own index is stored by
  position; any other Series is aligned to the frame's labels, a label it lacks
  getting a missing value, and pandas refuses a Series whose labels repeat.
\<close>

definition put_cell :: "string list \<Rightarrow> string \<Rightarrow> cell list \<Rightarrow> cell \<Rightarrow> cell list" where
  "put_cell cols c r v =
     (if c \<in> set cols then map (\<lambda>(k, old). if k = c then v else old) (zip cols r) else r @ [v])"

definition setitem_col :: "frame \<Rightarrow> string \<Rightarrow> series \<Rightarrow> py_error + frame" where
  "setitem_col df c s =
     (let cols' = (if c \<in> set (columns df) then columns df else columns df @ [c])
      in if map fst s = map fst (rows df)
         then Inr \<lparr>columns = cols',
                   rows = map (\<lambda>((l, r), v). (l, put_cell (columns df) c r v))
                            (zip (rows df) (map snd s))\<rparr>
         else if \<not> distinct (map fst s) then Inl (ValueError ''reindex'')
         else Inr \<lparr>columns = cols',
                   rows = map (\<lambda>(l, r). (l, put_cell (columns df) c r
                            (case map_of s l of Some v \<Rightarrow> v | None \<Rightarrow> NullV))) (rows df)\<rparr>)"

text \<open>
  \<open>s[i]\<close> and \<open>df.at[i, c]\<close>: the value at label \<open>i\<close>. No such label is a
  \<open>KeyError\<close>. With a repeated label pandas hands back all matches as a Series and
  not one value; no frame of the notebooks has repeated labels, and the model stops
  there.
\<close>

definition series_at :: "series \<Rightarrow> int \<Rightarrow> py_error + cell" where
  "series_at s i =
     (case filter (\<lambda>(l, v). l = i) s of
        [] \<Rightarrow> Inl (KeyError ''label'')
      | [(l, v)] \<Rightarrow> Inr v
      | _ \<Rightarrow> Inl (NotModelled ''repeated label''))"

definition frame_at :: "frame \<Rightarrow> int \<Rightarrow> string \<Rightarrow> py_error + cell" where
  "frame_at df i c = bind (getitem_col df c) (\<lambda>s. series_at s i)"

subsection \<open>Areas\<close>

text \<open>
  The area of a geometry is computed by shapely; it is a parameter \<open>area\<close> of every
  definition that needs it. \<open>geom.area\<close> on a value that is no geometry (a missing
  geometry is \<open>None\<close>) raises \<open>AttributeError\<close>.
\<close>

definition cell_area :: "(geometry \<Rightarrow> real) \<Rightarrow> cell \<Rightarrow> py_error + cell" where
  "cell_area area c =
     (case c of GeomV g \<Rightarrow> Inr (NumV (area g)) | _ \<Rightarrow> Inl (AttributeError ''area''))"

text \<open>
  \<open>df.area\<close>: the area of each value of the geometry column, as a Series on the
  frame's labels; a missing geometry has the missing area \<open>NaN\<close>.
\<close>

definition area_or_nan :: "(geometry \<Rightarrow> real) \<Rightarrow> cell \<Rightarrow> cell" where
  "area_or_nan area c = (case c of GeomV g \<Rightarrow> NumV (area g) | _ \<Rightarrow> NullV)"

definition frame_area :: "(geometry \<Rightarrow> real) \<Rightarrow> frame \<Rightarrow> py_error + series" where
  "frame_area area df =
     (if ''geometry'' \<in> set (columns df)
      then Inr (map (\<lambda>(l, r). (l, area_or_nan area (cell_at (columns df) r ''geometry''))) (rows df))
      else Inl (AttributeError ''area''))"

text \<open>
  The two loop bodies of the notebook, for the row \<open>(i, row)\<close> that \<open>iterrows\<close> yields:
  \<^verbatim>\<open>polygon_area = row["geometry"].area\<close> and \<^verbatim>\<open>polygon_area = data_set.area[i]\<close>.
\<close>

definition area_by_iterrows ::
  "(geometry \<Rightarrow> real) \<Rightarrow> frame \<Rightarrow> int \<times> cell list \<Rightarrow> py_error + cell" where
  "area_by_iterrows area df ir =
     bind (row_getitem (columns df) (snd ir) ''geometry'') (cell_area area)"

definition area_by_property ::
  "(geometry \<Rightarrow> real) \<Rightarrow> frame \<Rightarrow> int \<times> cell list \<Rightarrow> py_error + cell" where
  "area_by_property area df ir = bind (frame_area area df) (\<lambda>s. series_at s (fst ir))"

text \<open>\<open>df[:5].iterrows()\<close>: the first five rows, each with its label.\<close>

definition head_rows :: "frame \<Rightarrow> (int \<times> cell list) list" where
  "head_rows df = take 5 (rows df)"

section \<open>Paths\<close>

text \<open>
  A \<open>pathlib\<close> path on a POSIX system: the anchor (empty for a relative path, one
  slash, or the two slashes POSIX keeps apart) and the components below it. A string
  is split at slashes; empty components and single dots are dropped, as \<open>pathlib\<close>
  does when it parses (it keeps \<open>..\<close>).
\<close>

record path =
  anchor :: string
  parts :: "string list"

fun split_sep :: "char \<Rightarrow> string \<Rightarrow> string list" where
  "split_sep sep [] = [[]]"
| "split_sep sep (c # cs) =
     (if c = sep then [] # split_sep sep cs
      else (case split_sep sep cs of w # ws \<Rightarrow> (c # w) # ws | [] \<Rightarrow> [[c]]))"

definition leading_slashes :: "string \<Rightarrow> nat" where
  "leading_slashes s = length (takeWhile (\<lambda>c. c = CHR ''/'') s)"

definition parse_path :: "string \<Rightarrow> path" where
  "parse_path s =
     \<lparr>anchor = (if leading_slashes s = 2 then ''//''
                else if 1 \<le> leading_slashes s then ''/'' else []),
      parts = filter (\<lambda>w. w \<noteq> [] \<and> w \<noteq> ''.'') (split_sep CHR ''/'' s)\<rparr>"

text \<open>
  \<open>p / s\<close> with a string on the right: the components of \<open>s\<close> are appended, unless
  \<open>s\<close> is itself anchored, in which case it replaces \<open>p\<close>.
\<close>

definition truediv :: "path \<Rightarrow> string \<Rightarrow> path" where
  "truediv p s =
     (let q = parse_path s
      in if anchor q \<noteq> [] then q else \<lparr>anchor = anchor p, parts = parts p @ parts q\<rparr>)"

definition path_parent :: "path \<Rightarrow> path" where
  "path_parent p = (if parts p = [] then p else p\<lparr>parts := butlast (parts p)\<rparr>)"

definition path_name :: "path \<Rightarrow> string" where
  "path_name p = (if parts p = [] then [] else last (parts p))"

text \<open>A file name: one component, so not empty, not a single dot, and free of slashes.\<close>

definition is_file_name :: "string \<Rightarrow> bool" where
  "is_file_name n \<longleftrightarrow> n \<noteq> [] \<and> n \<noteq> ''.'' \<and> CHR ''/'' \<notin> set n"

text \<open>
  \<^verbatim>\<open>NOTEBOOK_PATH = pathlib.Path().resolve()\<close> is the absolute path of the working
  directory, the parameter \<open>cwd\<close>;
  \<^verbatim>\<open>DATA_DIRECTORY = NOTEBOOK_PATH / "data"\<close>.
\<close>

definition NOTEBOOK_PATH :: "path \<Rightarrow> path" where
  "NOTEBOOK_PATH cwd = cwd"

definition DATA_DIRECTORY :: "path \<Rightarrow> path" where
  "DATA_DIRECTORY cwd = truediv (NOTEBOOK_PATH cwd) ''data''"

text \<open>
  A string handed to a library call as a file name is a path relative to the working
  directory unless it is anchored.
\<close>

definition absolute :: "path \<Rightarrow> path \<Rightarrow> path" where
  "absolute cwd p =
     (if anchor p \<noteq> [] then p else \<lparr>anchor = anchor cwd, parts = parts cwd @ parts p\<rparr>)"

section \<open>Grouping\<close>

text \<open>
  \<open>df.groupby(c)\<close> with the defaults \<open>sort=True\<close> and \<open>dropna=True\<close>: the groups are
  the distinct values of the column in ascending order, rows with a missing value
  belong to no group, and each group is the frame restricted to its rows, in their
  order and with their labels. Group keys are modelled for string columns.
\<close>

fun string_keys :: "cell list \<Rightarrow> py_error + string list" where
  "string_keys [] = Inr []"
| "string_keys (StrV k # cs) = bind (string_keys cs) (\<lambda>ks. Inr (k # ks))"
| "string_keys (NullV # cs) = string_keys cs"
| "string_keys (c # cs) = Inl (NotModelled ''group key'')"

definition group_rows :: "frame \<Rightarrow> string \<Rightarrow> string \<Rightarrow> frame" where
  "group_rows df c k = df\<lparr>rows := filter (\<lambda>(l, r). cell_at (columns df) r c = StrV k) (rows df)\<rparr>"

definition groupby :: "frame \<Rightarrow> string \<Rightarrow> py_error + (string \<times> frame) list" where
  "groupby df c =
     bind (getitem_col df c) (\<lambda>s.
     bind (string_keys (map snd s)) (\<lambda>ks.
     Inr (map (\<lambda>k. (k, group_rows df c k)) (sort (remdups ks)))))"

subsection \<open>One file per group\<close>






definition lu_name :: "string \<Rightarrow> string" where
  "lu_name key = ''LU_'' @ key @ ''.shp''"



subsection \<open>The file arguments of the notebooks\<close>

text \<open>
  How the notebooks name the files they read and write: through
  \<^verbatim>\<open>DATA_DIRECTORY / "name"\<close>, or by a string literal, which the operating system
  takes relative to the working directory. The list has every file argument of a read
  or write call in the repository, in source order (the two downloads by URL are not
  files): the vector I/O notebook, the pathlib notebook, and the processing notebook
  with one \<^verbatim>\<open>f"LU_{key}.shp"\<close> for each group key.
\<close>

datatype file_arg = ViaDataDirectory string | Literal string

definition file_args :: "string list \<Rightarrow> file_arg list" where
  "file_args keys =
     [ViaDataDirectory ''UGA_adm1_2011.shp'',
      Literal ''nuts_1.gpkg'',
      Literal ''nuts_1.gpkg'',
      ViaDataDirectory ''nuts_1.gpkg'',
      ViaDataDirectory ''nuts_1.gjson'',
      Literal ''cykelpump_punkt.gml'',
      Literal ''cykelpump_punkt.gml'',
      ViaDataDirectory ''cykelpump_punkt.gpkg'',
      ViaDataDirectory ''UGA_adm1_2011.shp'',
      ViaDataDirectory ''UGA_adm1_2011.shp'',
      ViaDataDirectory ''Landusepolygon.shp'',
      ViaDataDirectory ''water_bodies.shp'']
     @ map (\<lambda>key. ViaDataDirectory (lu_name key)) keys
     @ [Literal ''data/area_by_LU_class.csv'']"

fun arg_path :: "path \<Rightarrow> file_arg \<Rightarrow> path" where
  "arg_path cwd (ViaDataDirectory n) = truediv (DATA_DIRECTORY cwd) n"
| "arg_path cwd (Literal s) = absolute cwd (parse_path s)"

fun via_data_directory :: "file_arg \<Rightarrow> bool" where
  "via_data_directory (ViaDataDirectory n) = True"
| "via_data_directory (Literal s) = False"

subsection \<open>The area of each class\<close>

text \<open>
  \<open>sum\<close> of a group of numbers skips missing values and is 0 for none. The area
  column holds numbers and missing values only; sums of other values are not modelled.
\<close>

fun sum_cells :: "cell list \<Rightarrow> py_error + real" where
  "sum_cells [] = Inr 0"
| "sum_cells (NumV a # cs) = bind (sum_cells cs) (\<lambda>t. Inr (a + t))"
| "sum_cells (IntV i # cs) = bind (sum_cells cs) (\<lambda>t. Inr (of_int i + t))"
| "sum_cells (NullV # cs) = sum_cells cs"
| "sum_cells (c # cs) = Inl (NotModelled ''sum'')"

fun sum_groups :: "string \<Rightarrow> (string \<times> frame) list \<Rightarrow> py_error + (string \<times> real) list" where
  "sum_groups c [] = Inr []"
| "sum_groups c ((key, grp) # gs) =
     bind (getitem_col grp c) (\<lambda>s.
     bind (sum_cells (map snd s)) (\<lambda>t.
     bind (sum_groups c gs) (\<lambda>ts. Inr ((key, t) # ts))))"

text \<open>
  \<^verbatim>\<open>area_information = data_set.groupby("CLASS_NAME").area.sum()\<close>
  On a group-by object \<open>.area\<close> is the column of that name, which the notebook has
  stored before with \<^verbatim>\<open>data_set["area"] = data_set.area\<close>.
\<close>

definition area_information :: "frame \<Rightarrow> py_error + (string \<times> real) list" where
  "area_information data_set =
     bind (groupby data_set ''CLASS_NAME'') (\<lambda>gs.
       if ''area'' \<in> set (columns data_set) then sum_groups ''area'' gs
       else Inl (AttributeError ''area''))"

definition with_area_column :: "(geometry \<Rightarrow> real) \<Rightarrow> frame \<Rightarrow> py_error + frame" where
  "with_area_column area data_set =
     bind (frame_area area data_set) (\<lambda>s. setitem_col data_set ''area'' s)"

text \<open>
  The reduction of the specification: for one class, the sum over the rows of that
  class of the area of the row's geometry.
\<close>

definition class_area_total :: "(geometry \<Rightarrow> real) \<Rightarrow> frame \<Rightarrow> string \<Rightarrow> real" where
  "class_area_total area df k =
     sum_list (map (\<lambda>(l, r). case cell_at (columns df) r ''geometry'' of GeomV g \<Rightarrow> area g | _ \<Rightarrow> 0)
       (filter (\<lambda>(l, r). cell_at (columns df) r ''CLASS_NAME'' = StrV k) (rows df)))"

section \<open>Objects and references\<close>

text \<open>
  Variables hold references to frames. The store lists the frames by address; an
  operation that returns a new frame allocates it behind the existing ones, and an
  assignment into a frame replaces the frame at its address.
\<close>

type_synonym store = "frame list"

definition load :: "store \<Rightarrow> nat \<Rightarrow> py_error + frame" where
  "load st a = (if a < length st then Inr (st ! a) else Inl (KeyError ''reference''))"

definition alloc :: "store \<Rightarrow> frame \<Rightarrow> store \<times> nat" where
  "alloc st df = (st @ [df], length st)"

text \<open>
  \<^verbatim>\<open>water_bodies = data_set[data_set.ID_CLASS == 901]\<close>, for any column name
  and value in the place of \<open>ID_CLASS\<close> and \<open>901\<close>.
\<close>

definition select_equal :: "store \<Rightarrow> nat \<Rightarrow> string \<Rightarrow> cell \<Rightarrow> py_error + store \<times> nat" where
  "select_equal st a c v =
     bind (load st a) (\<lambda>df.
     bind (getattr_col df c) (\<lambda>s.
     bind (getitem_mask df (series_eq s v)) (\<lambda>df'. Inr (alloc st df'))))"

text \<open>\<^verbatim>\<open>data_set.rename(columns={...})\<close>\<close>

definition rename :: "store \<Rightarrow> nat \<Rightarrow> (string \<times> string) list \<Rightarrow> py_error + store \<times> nat" where
  "rename st a m = bind (load st a) (\<lambda>df. Inr (alloc st (rename_columns m df)))"

text \<open>\<^verbatim>\<open>data_set["area"] = data_set.area\<close>: the frame itself is changed.\<close>

definition store_area :: "(geometry \<Rightarrow> real) \<Rightarrow> store \<Rightarrow> nat \<Rightarrow> py_error + store" where
  "store_area area st a =
     bind (load st a) (\<lambda>df. bind (with_area_column area df) (\<lambda>df'. Inr (st[a := df'])))"

subsection \<open>The class names of a data set\<close>

text \<open>
  The values of the column \<open>CLASS_NAME\<close>, row by row; a row without a value
  contributes none.
\<close>

fun cell_string :: "cell \<Rightarrow> string list" where
  "cell_string (StrV k) = [k]"
| "cell_string c = []"

definition column_strings :: "frame \<Rightarrow> string \<Rightarrow> string list" where
  "column_strings df c = concat (map (\<lambda>(l, r). cell_string (cell_at (columns df) r c)) (rows df))"

definition class_names :: "frame \<Rightarrow> string list" where
  "class_names df = column_strings df ''CLASS_NAME''"

fun has_class_name :: "cell \<Rightarrow> bool" where
  "has_class_name (StrV k) = True"
| "has_class_name NullV = True"
| "has_class_name c = False"

section \<open>Runs of the notebooks\<close>

text \<open>
  A notebook is run from its first cell to its last. What is recorded of a run is the
  sequence of calls it makes into the libraries and to the outside (file system,
  network, output), each with the error it raised, if any. A call raises what the
  environment makes it raise (the table \<open>ft\<close> says which call of the run, counted from
  0, fails and how), or else what it raises on the data it is given; whether a file
  can be written or a request is answered is the environment's part. The notebooks
  have no handler, so the error of a call ends the run; the one construct that runs
  a call after an error is the \<open>with\<close> block of the WFS script.
\<close>

datatype call =
    Resolve
  | ReadFile path
  | ReadUrl string
  | ToFile path
  | ToCsv path
  | OpenWrite path
  | Connect string
  | GetFeature string
  | Method string
  | Print

type_synonym event = "call \<times> py_error option"

type_synonym faults = "nat \<Rightarrow> py_error option"

type_synonym 'a run = "event list \<Rightarrow> event list \<times> (py_error + 'a)"

fun raised :: "py_error + 'a \<Rightarrow> py_error option" where
  "raised (Inl e) = Some e"
| "raised (Inr v) = None"

definition lib :: "faults \<Rightarrow> call \<Rightarrow> py_error + 'a \<Rightarrow> 'a run" where
  "lib ft c r t =
     (let out = (case ft (length t) of Some e \<Rightarrow> Inl e | None \<Rightarrow> r)
      in (t @ [(c, raised out)], out))"

definition ret :: "'a \<Rightarrow> 'a run" where
  "ret v t = (t, Inr v)"

definition then_do :: "'a run \<Rightarrow> ('a \<Rightarrow> 'b run) \<Rightarrow> 'b run" where
  "then_do m f t = (case m t of (t', Inl e) \<Rightarrow> (t', Inl e) | (t', Inr v) \<Rightarrow> f v t')"

fun for_each :: "('a \<Rightarrow> unit run) \<Rightarrow> 'a list \<Rightarrow> unit run" where
  "for_each body [] = ret ()"
| "for_each body (x # xs) = then_do (body x) (\<lambda>u. for_each body xs)"

text \<open>A call whose result the notebook only displays.\<close>

definition invoke :: "faults \<Rightarrow> string \<Rightarrow> unit run" where
  "invoke ft name = lib ft (Method name) (Inr ())"

definition calls :: "event list \<Rightarrow> call list" where
  "calls t = map fst t"

definition no_faults :: faults where
  "no_faults n = None"

text \<open>
  The lambda of the WFS script call by call, as \<open>Series.apply\<close> runs it on each value
  of the geometry column: the test \<open>geom.has_z\<close>, the coordinates from left to right,
  and the constructor \<open>Point\<close>.
\<close>

definition swap_run :: "faults \<Rightarrow> cell \<Rightarrow> cell run" where
  "swap_run ft c =
     (case c of
        GeomV geom \<Rightarrow>
          then_do (lib ft (Method ''has_z'') (Inr (has_z geom))) (\<lambda>hz.
          if hz
          then then_do (lib ft (Method ''y'') (geom_y geom)) (\<lambda>y.
               then_do (lib ft (Method ''x'') (geom_x geom)) (\<lambda>x.
               then_do (lib ft (Method ''z'') (geom_z geom)) (\<lambda>z.
               lib ft (Method ''Point'') (Inr (GeomV (Point3 y x z))))))
          else then_do (lib ft (Method ''y'') (geom_y geom)) (\<lambda>y.
               then_do (lib ft (Method ''x'') (geom_x geom)) (\<lambda>x.
               lib ft (Method ''Point'') (Inr (GeomV (Point2 y x))))))
      | _ \<Rightarrow> lib ft (Method ''has_z'') (Inl (AttributeError ''has_z'')))"

fun apply_each :: "(cell \<Rightarrow> cell run) \<Rightarrow> series \<Rightarrow> series run" where
  "apply_each f [] = ret []"
| "apply_each f ((l, c) # s) =
     then_do (f c) (\<lambda>c'. then_do (apply_each f s) (\<lambda>s'. ret ((l, c') # s')))"

text \<open>
  \<^verbatim>\<open>with open(...) as f:\<close> after the file has been opened: the body is run, and
  then the file is closed whether the body has raised or not. An error of the body
  goes on to the caller once the file is closed; when the close raises, its error is
  the one that goes on.
\<close>

definition with_close :: "faults \<Rightarrow> 'a run \<Rightarrow> 'a run" where
  "with_close ft body t =
     (case body t of (t1, r) \<Rightarrow>
        (case lib ft (Method ''close'') (Inr ()) t1 of
           (t2, Inl e) \<Rightarrow> (t2, Inl e)
         | (t2, Inr u) \<Rightarrow> (t2, r)))"

subsection \<open>The processing notebook\<close>

text \<open>
  The cells of the Geopandas processing notebook, in order. \<open>files\<close> is what
  \<open>geopandas.read_file\<close> returns for a path.
\<close>

definition nb_setup :: "faults \<Rightarrow> path \<Rightarrow> (path \<Rightarrow> py_error + frame) \<Rightarrow> (path \<times> frame) run" where
  "nb_setup ft cwd files =
     then_do (lib ft Resolve (Inr (NOTEBOOK_PATH cwd))) (\<lambda>notebook_path.
     then_do (lib ft (ReadFile (truediv (truediv notebook_path ''data'') ''Landusepolygon.shp''))
                (files (truediv (truediv notebook_path ''data'') ''Landusepolygon.shp''))) (\<lambda>data_set.
     then_do (invoke ft ''plot'') (\<lambda>u.
     ret (truediv notebook_path ''data'', data_set))))"

definition nb_inspect :: "faults \<Rightarrow> frame \<Rightarrow> unit run" where
  "nb_inspect ft data_set =
     then_do (invoke ft ''head'') (\<lambda>u. invoke ft ''columns'')"

definition nb_select :: "faults \<Rightarrow> frame \<Rightarrow> frame run" where
  "nb_select ft data_set =
     then_do (lib ft (Method ''getitem'')
                (getitem_cols data_set [''KKOD'', ''KATEGORI'', ''geometry''])) (\<lambda>data_set.
     then_do (lib ft (Method ''rename'')
                (Inr (rename_columns [(''KKOD'', ''ID_CLASS''), (''KATEGORI'', ''CLASS_NAME'')]
                   data_set))) (\<lambda>data_set.
     then_do (invoke ft ''head'') (\<lambda>u.
     then_do (invoke ft ''plot'') (\<lambda>u.
     then_do (lib ft (Method ''geometry'') (frame_geometry data_set)) (\<lambda>g.
     then_do (invoke ft ''head'') (\<lambda>u.
     ret data_set))))))"

definition nb_one_area :: "faults \<Rightarrow> (geometry \<Rightarrow> real) \<Rightarrow> frame \<Rightarrow> unit run" where
  "nb_one_area ft area data_set =
     then_do (lib ft (Method ''at'') (frame_at data_set 4 ''geometry'')) (\<lambda>g.
     then_do (lib ft (Method ''at'') (frame_at data_set 4 ''geometry'')) (\<lambda>g.
     then_do (lib ft (Method ''area'') (cell_area area g)) (\<lambda>a.
     lib ft Print (Inr ()))))"

definition nb_iterrows_loop :: "faults \<Rightarrow> (geometry \<Rightarrow> real) \<Rightarrow> frame \<Rightarrow> unit run" where
  "nb_iterrows_loop ft area data_set =
     then_do (lib ft (Method ''getitem'') (Inr (head_rows data_set))) (\<lambda>first.
     then_do (lib ft (Method ''iterrows'') (Inr first)) (\<lambda>pairs.
     for_each (\<lambda>(index, row).
       then_do (lib ft (Method ''getitem'') (row_getitem (columns data_set) row ''geometry'')) (\<lambda>g.
       then_do (lib ft (Method ''area'') (cell_area area g)) (\<lambda>polygon_area.
       lib ft Print (Inr ())))) pairs))"

definition nb_area_property :: "faults \<Rightarrow> (geometry \<Rightarrow> real) \<Rightarrow> frame \<Rightarrow> unit run" where
  "nb_area_property ft area data_set =
     then_do (lib ft (Method ''area'') (frame_area area data_set)) (\<lambda>s.
     then_do (lib ft (Method ''getitem'') (series_at s 0)) (\<lambda>v. ret ()))"

definition nb_property_loop :: "faults \<Rightarrow> (geometry \<Rightarrow> real) \<Rightarrow> frame \<Rightarrow> unit run" where
  "nb_property_loop ft area data_set =
     then_do (lib ft (Method ''getitem'') (Inr (head_rows data_set))) (\<lambda>first.
     then_do (lib ft (Method ''iterrows'') (Inr first)) (\<lambda>pairs.
     for_each (\<lambda>(i, row).
       then_do (lib ft (Method ''area'') (frame_area area data_set)) (\<lambda>s.
       then_do (lib ft (Method ''getitem'') (series_at s i)) (\<lambda>polygon_area.
       lib ft Print (Inr ())))) pairs))"

definition nb_area_column :: "faults \<Rightarrow> (geometry \<Rightarrow> real) \<Rightarrow> frame \<Rightarrow> frame run" where
  "nb_area_column ft area data_set =
     then_do (lib ft (Method ''area'') (frame_area area data_set)) (\<lambda>s.
     lib ft (Method ''setitem'') (setitem_col data_set ''area'' s))"

definition nb_water_bodies :: "faults \<Rightarrow> path \<Rightarrow> frame \<Rightarrow> unit run" where
  "nb_water_bodies ft data_directory data_set =
     then_do (lib ft (Method ''ID_CLASS'') (getattr_col data_set ''ID_CLASS'')) (\<lambda>s.
     then_do (lib ft (Method ''eq'') (Inr (series_eq s (IntV 901)))) (\<lambda>m.
     then_do (lib ft (Method ''getitem'') (getitem_mask data_set m)) (\<lambda>water_bodies.
     then_do (invoke ft ''plot'') (\<lambda>u.
     lib ft (ToFile (truediv data_directory ''water_bodies.shp'')) (Inr ())))))"

definition get_group :: "(string \<times> frame) list \<Rightarrow> string \<Rightarrow> py_error + frame" where
  "get_group gs k = (case map_of gs k of Some g \<Rightarrow> Inr g | None \<Rightarrow> Inl (KeyError k))"

definition nb_groups :: "faults \<Rightarrow> frame \<Rightarrow> unit run" where
  "nb_groups ft data_set =
     then_do (lib ft (Method ''getitem'') (getitem_col data_set ''CLASS_NAME'')) (\<lambda>s.
     then_do (invoke ft ''unique'') (\<lambda>u.
     then_do (lib ft (Method ''groupby'') (groupby data_set ''CLASS_NAME'')) (\<lambda>grouped_data.
     then_do (invoke ft ''groups'') (\<lambda>u.
     then_do (for_each (\<lambda>(key, grp). lib ft Print (Inr ())) grouped_data) (\<lambda>u.
     then_do (lib ft (Method ''get_group'') (get_group grouped_data ''Vattenyta'')) (\<lambda>water_bodies.
     invoke ft ''plot''))))))"

definition nb_fanout :: "faults \<Rightarrow> path \<Rightarrow> frame \<Rightarrow> unit run" where
  "nb_fanout ft data_directory data_set =
     then_do (lib ft (Method ''groupby'') (groupby data_set ''CLASS_NAME'')) (\<lambda>gs.
     for_each (\<lambda>(key, grp). lib ft (ToFile (truediv data_directory (lu_name key))) (Inr ())) gs)"

definition nb_area_summary :: "faults \<Rightarrow> path \<Rightarrow> frame \<Rightarrow> unit run" where
  "nb_area_summary ft cwd data_set =
     then_do (lib ft (Method ''groupby'') (groupby data_set ''CLASS_NAME'')) (\<lambda>gs.
     then_do (lib ft (Method ''area'')
                (if ''area'' \<in> set (columns data_set) then Inr gs
                 else Inl (AttributeError ''area''))) (\<lambda>gs.
     then_do (lib ft (Method ''sum'') (sum_groups ''area'' gs)) (\<lambda>area_information.
     lib ft (ToCsv (absolute cwd (parse_path ''data/area_by_LU_class.csv''))) (Inr ()))))"

definition processing_notebook ::
  "faults \<Rightarrow> (geometry \<Rightarrow> real) \<Rightarrow> path \<Rightarrow> (path \<Rightarrow> py_error + frame) \<Rightarrow> unit run" where
  "processing_notebook ft area cwd files =
     then_do (nb_setup ft cwd files) (\<lambda>(data_directory, data_set).
     then_do (nb_inspect ft data_set) (\<lambda>u.
     then_do (nb_select ft data_set) (\<lambda>data_set.
     then_do (nb_one_area ft area data_set) (\<lambda>u.
     then_do (nb_iterrows_loop ft area data_set) (\<lambda>u.
     then_do (nb_area_property ft area data_set) (\<lambda>u.
     then_do (nb_property_loop ft area data_set) (\<lambda>u.
     then_do (nb_area_column ft area data_set) (\<lambda>data_set.
     then_do (nb_water_bodies ft data_directory data_set) (\<lambda>u.
     then_do (nb_groups ft data_set) (\<lambda>u.
     then_do (nb_fanout ft data_directory data_set) (\<lambda>u.
     nb_area_summary ft cwd data_set)))))))))))"

text \<open>
  The call sequence of a run to the end, given the number of rows among the first
  five and the class names in ascending order.
\<close>

definition processing_calls :: "path \<Rightarrow> nat \<Rightarrow> string list \<Rightarrow> call list" where
  "processing_calls cwd n keys =
     [Resolve, ReadFile (truediv (DATA_DIRECTORY cwd) ''Landusepolygon.shp''), Method ''plot'',
      Method ''head'', Method ''columns'',
      Method ''getitem'', Method ''rename'', Method ''head'', Method ''plot'', Method ''geometry'',
      Method ''head'',
      Method ''at'', Method ''at'', Method ''area'', Print,
      Method ''getitem'', Method ''iterrows'']
     @ concat (replicate n [Method ''getitem'', Method ''area'', Print])
     @ [Method ''area'', Method ''getitem'',
        Method ''getitem'', Method ''iterrows'']
     @ concat (replicate n [Method ''area'', Method ''getitem'', Print])
     @ [Method ''area'', Method ''setitem'',
        Method ''ID_CLASS'', Method ''eq'', Method ''getitem'', Method ''plot'',
        ToFile (truediv (DATA_DIRECTORY cwd) ''water_bodies.shp''),
        Method ''getitem'', Method ''unique'', Method ''groupby'', Method ''groups'']
     @ replicate (length keys) Print
     @ [Method ''get_group'', Method ''plot'',
        Method ''groupby'']
     @ map (\<lambda>key. ToFile (truediv (DATA_DIRECTORY cwd) (lu_name key))) keys
     @ [Method ''groupby'', Method ''area'', Method ''sum'',
        ToCsv (absolute cwd (parse_path ''data/area_by_LU_class.csv''))]"

subsection \<open>The vector I/O notebook\<close>

text \<open>
  The WFS script of the last code cell. The service object is created (which asks the
  service for its capabilities), the layer is fetched, the response is written to a
  file inside a \<open>with\<close> block and read back as a frame, the reference system is set,
  the coordinates of every geometry are swapped, and the result is written to the data
  directory.
\<close>

definition wfs_url :: string where
  "wfs_url = ''https://openstreetgs.stockholm.se/geoservice/api/8a5977e3-3c63-446b-90c0-0c079d0bef55/wfs''"

definition layer_name :: string where
  "layer_name = ''od_gis:Cykelpump_Punkt''"

definition wfs_cell :: "faults \<Rightarrow> path \<Rightarrow> (path \<Rightarrow> py_error + frame) \<Rightarrow> frame run" where
  "wfs_cell ft cwd files =
     then_do (lib ft (Connect wfs_url) (Inr ())) (\<lambda>wfs.
     then_do (lib ft (GetFeature layer_name) (Inr ())) (\<lambda>response.
     then_do (lib ft (OpenWrite (absolute cwd (parse_path ''cykelpump_punkt.gml''))) (Inr ())) (\<lambda>f.
     then_do (with_close ft
                (then_do (invoke ft ''read'') (\<lambda>bytes. invoke ft ''write''))) (\<lambda>u.
     then_do (lib ft (ReadFile (absolute cwd (parse_path ''cykelpump_punkt.gml'')))
                (files (absolute cwd (parse_path ''cykelpump_punkt.gml'')))) (\<lambda>data.
     then_do (lib ft (Method ''set_crs'') (Inr data)) (\<lambda>data.
     then_do (lib ft (Method ''getitem'') (getitem_col data ''geometry'')) (\<lambda>s.
     then_do (invoke ft ''apply'') (\<lambda>u.
     then_do (apply_each (swap_run ft) s) (\<lambda>s.
     then_do (lib ft (Method ''setitem'') (setitem_col data ''geometry'' s)) (\<lambda>data.
     then_do (lib ft (ToFile (truediv (DATA_DIRECTORY cwd) ''cykelpump_punkt.gpkg'')) (Inr ())) (\<lambda>u.
     ret data)))))))))))"

definition nuts_url :: string where
  "nuts_url = ''https://gisco-services.ec.europa.eu/distribution/v2/nuts/shp/NUTS_RG_60M_2021_3035.shp.zip''"

definition vector_io_notebook ::
  "faults \<Rightarrow> path \<Rightarrow> (path \<Rightarrow> py_error + frame) \<Rightarrow> (string \<Rightarrow> py_error + frame) \<Rightarrow> frame run" where
  "vector_io_notebook ft cwd files urls =
     then_do (lib ft Resolve (Inr (NOTEBOOK_PATH cwd))) (\<lambda>notebook_path.
     then_do (invoke ft ''supported_drivers'') (\<lambda>u.
     then_do (lib ft (ReadFile (truediv (truediv notebook_path ''data'') ''UGA_adm1_2011.shp''))
                (files (truediv (truediv notebook_path ''data'') ''UGA_adm1_2011.shp''))) (\<lambda>data_set.
     then_do (invoke ft ''plot'') (\<lambda>u.
     then_do (invoke ft ''head'') (\<lambda>u.
     then_do (lib ft (ReadUrl nuts_url) (urls nuts_url)) (\<lambda>gdf.
     then_do (invoke ft ''head'') (\<lambda>u.
     then_do (lib ft (ToFile (absolute cwd (parse_path ''nuts_1.gpkg''))) (Inr ())) (\<lambda>u.
     then_do (lib ft (Method ''rename'') (Inr (rename_columns [(''FID'', ''FID1'')] gdf))) (\<lambda>gdf.
     then_do (lib ft (ToFile (absolute cwd (parse_path ''nuts_1.gpkg''))) (Inr ())) (\<lambda>u.
     then_do (lib ft (ToFile (truediv (truediv notebook_path ''data'') ''nuts_1.gpkg'')) (Inr ())) (\<lambda>u.
     then_do (lib ft (ToFile (truediv (truediv notebook_path ''data'') ''nuts_1.gjson'')) (Inr ())) (\<lambda>u.
     wfs_cell ft cwd files))))))))))))"

subsection \<open>The pathlib notebook\<close>

definition pathlib_notebook :: "faults \<Rightarrow> path \<Rightarrow> (path \<Rightarrow> py_error + frame) \<Rightarrow> frame run" where
  "pathlib_notebook ft cwd files =
     then_do (lib ft Resolve (Inr cwd)) (\<lambda>path.
     then_do (invoke ft ''exists'') (\<lambda>u.
     then_do (invoke ft ''is_dir'') (\<lambda>u.
     then_do (lib ft Resolve (Inr (NOTEBOOK_PATH cwd))) (\<lambda>notebook_path.
     then_do (lib ft Print (Inr ())) (\<lambda>u.
     then_do (lib ft (ReadFile (truediv (truediv notebook_path ''data'') ''UGA_adm1_2011.shp''))
                (files (truediv (truediv notebook_path ''data'') ''UGA_adm1_2011.shp''))) (\<lambda>data_set.
     then_do (invoke ft ''plot'') (\<lambda>u.
     then_do (invoke ft ''abspath'') (\<lambda>u.
     then_do (lib ft Resolve (Inr (NOTEBOOK_PATH cwd))) (\<lambda>notebook_path.
     then_do (lib ft (ReadFile (truediv (truediv notebook_path ''data'') ''UGA_adm1_2011.shp''))
                (files (truediv (truediv notebook_path ''data'') ''UGA_adm1_2011.shp''))) (\<lambda>data_set.
     then_do (invoke ft ''plot'') (\<lambda>u.
     ret data_set)))))))))))"

subsection \<open>The reference system notebook\<close>

text \<open>
  \<open>to_crs\<close> is what \<open>GeoDataFrame.to_crs("EPSG:4326")\<close> returns for a frame; the
  descriptors that \<open>pyproj\<close> hands back are printed and not used further.
\<close>

definition crs_notebook ::
  "faults \<Rightarrow> (string \<Rightarrow> py_error + frame) \<Rightarrow> (frame \<Rightarrow> py_error + frame) \<Rightarrow> unit run" where
  "crs_notebook ft urls to_crs =
     then_do (lib ft (ReadUrl nuts_url) (urls nuts_url)) (\<lambda>gdf.
     then_do (invoke ft ''head'') (\<lambda>u.
     then_do (invoke ft ''plot'') (\<lambda>u.
     then_do (invoke ft ''crs'') (\<lambda>u.
     then_do (lib ft (Method ''geometry'') (frame_geometry gdf)) (\<lambda>g.
     then_do (invoke ft ''head'') (\<lambda>u.
     then_do (lib ft (Method ''to_crs'') (to_crs gdf)) (\<lambda>gdf_epsg_4326.
     then_do (lib ft (Method ''geometry'') (frame_geometry gdf_epsg_4326)) (\<lambda>g.
     then_do (invoke ft ''head'') (\<lambda>u.
     then_do (invoke ft ''crs'') (\<lambda>u.
     then_do (invoke ft ''subplots'') (\<lambda>u.
     then_do (invoke ft ''plot'') (\<lambda>u.
     then_do (invoke ft ''set_title'') (\<lambda>u.
     then_do (invoke ft ''set_aspect'') (\<lambda>u.
     then_do (invoke ft ''plot'') (\<lambda>u.
     then_do (invoke ft ''set_title'') (\<lambda>u.
     then_do (invoke ft ''set_aspect'') (\<lambda>u.
     then_do (invoke ft ''tight_layout'') (\<lambda>u.
     then_do (invoke ft ''crs'') (\<lambda>u.
     then_do (invoke ft ''CRS'') (\<lambda>crs.
     then_do (invoke ft ''to_proj4'') (\<lambda>u.
     then_do (lib ft Print (Inr ())) (\<lambda>u.
     then_do (invoke ft ''to_wkt'') (\<lambda>u.
     then_do (lib ft Print (Inr ())) (\<lambda>u.
     then_do (invoke ft ''to_epsg'') (\<lambda>u.
     then_do (lib ft Print (Inr ())) (\<lambda>u.
     then_do (invoke ft ''CRS'') (\<lambda>crs.
     then_do (invoke ft ''name'') (\<lambda>u.
     then_do (invoke ft ''area_of_use'') (\<lambda>u.
     invoke ft ''bounds'')))))))))))))))))))))))))))))"

subsection \<open>The calls of the other notebooks\<close>

text \<open>
  The call sequences of runs to the end of the vector I/O notebook (given, feature by
  feature, whether the geometry has a third coordinate), of the pathlib notebook and
  of the reference system notebook.
\<close>

fun cell_has_z :: "cell \<Rightarrow> bool" where
  "cell_has_z (GeomV g) = has_z g"
| "cell_has_z c = False"

definition z_flags :: "frame \<Rightarrow> bool list" where
  "z_flags df = map (\<lambda>(l, r). cell_has_z (cell_at (columns df) r ''geometry'')) (rows df)"

definition swap_calls :: "bool \<Rightarrow> call list" where
  "swap_calls z =
     (if z then [Method ''has_z'', Method ''y'', Method ''x'', Method ''z'', Method ''Point'']
      else [Method ''has_z'', Method ''y'', Method ''x'', Method ''Point''])"

definition wfs_calls :: "path \<Rightarrow> bool list \<Rightarrow> call list" where
  "wfs_calls cwd flags =
     [Connect wfs_url, GetFeature layer_name,
      OpenWrite (absolute cwd (parse_path ''cykelpump_punkt.gml'')),
      Method ''read'', Method ''write'', Method ''close'',
      ReadFile (absolute cwd (parse_path ''cykelpump_punkt.gml'')),
      Method ''set_crs'', Method ''getitem'', Method ''apply'']
     @ concat (map swap_calls flags)
     @ [Method ''setitem'', ToFile (truediv (DATA_DIRECTORY cwd) ''cykelpump_punkt.gpkg'')]"

definition vector_io_calls :: "path \<Rightarrow> bool list \<Rightarrow> call list" where
  "vector_io_calls cwd flags =
     [Resolve, Method ''supported_drivers'',
      ReadFile (truediv (DATA_DIRECTORY cwd) ''UGA_adm1_2011.shp''), Method ''plot'', Method ''head'',
      ReadUrl nuts_url, Method ''head'',
      ToFile (absolute cwd (parse_path ''nuts_1.gpkg'')), Method ''rename'',
      ToFile (absolute cwd (parse_path ''nuts_1.gpkg'')),
      ToFile (truediv (DATA_DIRECTORY cwd) ''nuts_1.gpkg''),
      ToFile (truediv (DATA_DIRECTORY cwd) ''nuts_1.gjson'')]
     @ wfs_calls cwd flags"

definition pathlib_calls :: "path \<Rightarrow> call list" where
  "pathlib_calls cwd =
     [Resolve, Method ''exists'', Method ''is_dir'', Resolve, Print,
      ReadFile (truediv (DATA_DIRECTORY cwd) ''UGA_adm1_2011.shp''), Method ''plot'',
      Method ''abspath'', Resolve,
      ReadFile (truediv (DATA_DIRECTORY cwd) ''UGA_adm1_2011.shp''), Method ''plot'']"

definition crs_calls :: "call list" where
  "crs_calls =
     [ReadUrl nuts_url, Method ''head'', Method ''plot'', Method ''crs'', Method ''geometry'',
      Method ''head'', Method ''to_crs'', Method ''geometry'', Method ''head'', Method ''crs'',
      Method ''subplots'', Method ''plot'', Method ''set_title'', Method ''set_aspect'',
      Method ''plot'', Method ''set_title'', Method ''set_aspect'', Method ''tight_layout'',
      Method ''crs'', Method ''CRS'', Method ''to_proj4'', Print, Method ''to_wkt'', Print,
      Method ''to_epsg'', Print, Method ''CRS'', Method ''name'', Method ''area_of_use'',
      Method ''bounds'']"

subsection \<open>Errors in a run\<close>

text \<open>
  Outside a \<open>with\<close> block a run ends at the first call that raises, with the error
  of that call as its result: no call before the last one of the trace has raised, and
  the run returns an error exactly when its last call raised it. Moreover a failure
  that the environment causes at a call of the run is the result of the run, and that
  call is the last.
\<close>

definition quiet :: "event list \<Rightarrow> bool" where
  "quiet t \<longleftrightarrow> list_all (\<lambda>ev. snd ev = None) t"

definition ends_at_first_error :: "event list \<times> (py_error + 'a) \<Rightarrow> bool" where
  "ends_at_first_error tr =
     (case tr of (t, r) \<Rightarrow>
        quiet (butlast t) \<and>
        (case r of Inl e \<Rightarrow> t \<noteq> [] \<and> snd (last t) = Some e | Inr v \<Rightarrow> quiet t))"

fun failure_is_result :: "faults \<Rightarrow> event list \<times> (py_error + 'a) \<Rightarrow> nat \<Rightarrow> bool" where
  "failure_is_result ft (t, r) n =
     (case ft n of None \<Rightarrow> True | Some e \<Rightarrow> n < length t \<longrightarrow> r = Inl e \<and> Suc n = length t)"

definition propagates :: "faults \<Rightarrow> event list \<times> (py_error + 'a) \<Rightarrow> bool" where
  "propagates ft tr \<longleftrightarrow> ends_at_first_error tr \<and> (\<forall>n. failure_is_result ft tr n)"

definition agrees :: "faults \<Rightarrow> event list \<Rightarrow> bool" where
  "agrees ft t \<longleftrightarrow> (\<forall>n < length t. ft n \<noteq> None \<longrightarrow> snd (t ! n) = ft n)"

definition faithful :: "faults \<Rightarrow> 'a run \<Rightarrow> bool" where
  "faithful ft m \<longleftrightarrow>
     (\<forall>t. quiet t \<and> agrees ft t \<longrightarrow>
        ends_at_first_error (m t) \<and> agrees ft (fst (m t)) \<and> length t \<le> length (fst (m t)))"

text \<open>
  Two further properties of runs, for counting calls: a run only ever adds calls to
  the trace, and it adds at most \<open>k\<close> calls of a given kind.
\<close>

definition extends :: "'a run \<Rightarrow> bool" where
  "extends m \<longleftrightarrow> (\<forall>t. \<exists>new. fst (m t) = t @ new)"

definition at_most :: "call \<Rightarrow> nat \<Rightarrow> 'a run \<Rightarrow> bool" where
  "at_most c k m \<longleftrightarrow> (\<forall>t. count_list (calls (fst (m t))) c \<le> count_list (calls t) c + k)"

text \<open>
  The vector I/O notebook has the one construct of the repository that runs a call
  after a failure, the \<open>with\<close> block of the WFS script. In its runs a call that
  raises is the last call, unless it is the \<open>read\<close> or the \<open>write\<close> inside the block:
  then the close of the file follows as the last call, and the run ends with the error
  of the body, or with the error of the close when that raises as well.
\<close>

definition in_with_block :: "call \<Rightarrow> bool" where
  "in_with_block c \<longleftrightarrow> c = Method ''read'' \<or> c = Method ''write''"

fun unwinds :: "event list \<Rightarrow> py_error option \<Rightarrow> bool" where
  "unwinds [] out \<longleftrightarrow> out = None"
| "unwinds ((c, None) # t) out \<longleftrightarrow> unwinds t out"
| "unwinds ((c, Some e) # t) out \<longleftrightarrow>
     (if in_with_block c
      then (case t of
              [(c', x)] \<Rightarrow> c' = Method ''close'' \<and>
                            out = Some (case x of None \<Rightarrow> e | Some e' \<Rightarrow> e')
            | _ \<Rightarrow> False)
      else t = [] \<and> out = Some e)"

definition closes_and_propagates :: "faults \<Rightarrow> event list \<times> (py_error + 'a) \<Rightarrow> bool" where
  "closes_and_propagates ft tr \<longleftrightarrow> (case tr of (t, r) \<Rightarrow> unwinds t (raised r) \<and> agrees ft t)"

definition closing :: "faults \<Rightarrow> 'a run \<Rightarrow> bool" where
  "closing ft m \<longleftrightarrow>
     (\<forall>t. quiet t \<and> agrees ft t \<longrightarrow>
        (\<exists>new. fst (m t) = t @ new \<and> unwinds new (raised (snd (m t))) \<and> agrees ft (t @ new)))"

text \<open>
  The WFS fetch in a run: the service object is created at most once, the layer is
  fetched once if the service object was created and not at all otherwise, and a run
  to the end has done both once.
\<close>

definition fetched_once :: "event list \<times> (py_error + 'a) \<Rightarrow> bool" where
  "fetched_once tr \<longleftrightarrow>
     (case tr of (t, r) \<Rightarrow>
        count_list (calls t) (Connect wfs_url) \<le> 1 \<and>
        count_list (calls t) (GetFeature layer_name) =
          (if (Connect wfs_url, None) \<in> set t then 1 else 0) \<and>
        (raised r = None \<longrightarrow>
           count_list (calls t) (Connect wfs_url) = 1 \<and>
           count_list (calls t) (GetFeature layer_name) = 1))"

definition fetching :: "'a run \<Rightarrow> bool" where
  "fetching m \<longleftrightarrow>
     (\<forall>t. \<exists>new. fst (m t) = t @ new \<and>
        count_list (calls new) (Connect wfs_url) \<le> 1 \<and>
        count_list (calls new) (GetFeature layer_name) =
          (if (Connect wfs_url, None) \<in> set new then 1 else 0))"

text \<open>A fault table for examples: the call numbered \<open>k\<close> fails with a library error.\<close>

definition fault_at :: "nat \<Rightarrow> faults" where
  "fault_at k n = (if n = k then Some (LibraryError ''failed'') else None)"

definition ex_points :: frame where
  "ex_points = read_frame [''name'', ''geometry'']
     [[StrV ''pump 1'', GeomV (Point2 6580000 150000)],
      [StrV ''pump 2'', GeomV (Point3 6581000 151000 12)]]"

text \<open>
  The data set after the notebook has selected the three columns and renamed two of
  them.
\<close>

definition prepared :: "frame \<Rightarrow> frame" where
  "prepared raw =
     \<lparr>columns = [''ID_CLASS'', ''CLASS_NAME'', ''geometry''],
      rows = map (\<lambda>(l, r). (l, [cell_at (columns raw) r ''KKOD'', cell_at (columns raw) r ''KATEGORI'',
                               cell_at (columns raw) r ''geometry''])) (rows raw)\<rparr>"

section \<open>Example data\<close>

text \<open>
  A small land use data set in the shape the notebook works on after it has selected
  and renamed the columns, a data directory, and the planar area of a polygon by the
  surveyor's formula as an instance of the area parameter.
\<close>

fun cross_sum :: "(real \<times> real) list \<Rightarrow> real" where
  "cross_sum ((x1, y1) # (x2, y2) # ps) = x1 * y2 - x2 * y1 + cross_sum ((x2, y2) # ps)"
| "cross_sum ps = 0"

fun planar_area :: "geometry \<Rightarrow> real" where
  "planar_area (Polygon []) = 0"
| "planar_area (Polygon (p # ps)) = \<bar>cross_sum (p # ps @ [p])\<bar> / 2"
| "planar_area g = 0"


definition ex_frame :: frame where
  "ex_frame = read_frame [''ID_CLASS'', ''CLASS_NAME'', ''geometry'']
     [[IntV 901, StrV ''Vattenyta'', GeomV (Polygon [(0, 0), (2, 0), (2, 1), (0, 1)])],
      [IntV 302, StrV ''Skog'', GeomV (Polygon [(0, 0), (1, 0), (0, 1)])],
      [IntV 901, StrV ''Vattenyta'', GeomV (Polygon [(0, 0), (1, 0), (1, 1), (0, 1)])],
      [IntV 302, NullV, NullV]]"

text \<open>
  Two land use files of five and six records as the notebook reads them; the class of
  the second record of the first file is left open.
\<close>

definition ex_landuse :: "string \<Rightarrow> frame" where
  "ex_landuse k = read_frame [''KKOD'', ''KATEGORI'', ''geometry'']
     [[IntV 901, StrV ''Vattenyta'', GeomV (Polygon [(0, 0), (2, 0), (2, 1), (0, 1)])],
      [IntV 302, StrV k, GeomV (Polygon [(0, 0), (1, 0), (0, 1)])],
      [IntV 901, StrV ''Vattenyta'', GeomV (Polygon [(0, 0), (1, 0), (1, 1), (0, 1)])],
      [IntV 901, StrV ''Vattenyta'', GeomV (Polygon [(3, 0), (4, 0), (4, 1), (3, 1)])],
      [IntV 901, StrV ''Vattenyta'', GeomV (Polygon [(5, 0), (6, 0), (6, 1), (5, 1)])]]"

definition ex_landuse_six :: frame where
  "ex_landuse_six = read_frame [''KKOD'', ''KATEGORI'', ''geometry'']
     [[IntV 302, StrV ''Skog'', GeomV (Polygon [(0, 0), (1, 0), (0, 1)])],
      [IntV 302, StrV ''Skog'', GeomV (Polygon [(1, 1), (2, 1), (1, 2)])],
      [IntV 901, StrV ''Vattenyta'', GeomV (Polygon [(0, 0), (1, 0), (1, 1), (0, 1)])],
      [IntV 302, StrV ''Skog'', GeomV (Polygon [(3, 0), (4, 0), (4, 1)])],
      [IntV 302, StrV ''Skog'', GeomV (Polygon [(5, 0), (6, 0), (6, 1)])],
      [IntV 901, StrV ''Vattenyta'', GeomV (Polygon [(7, 0), (8, 0), (8, 1), (7, 1)])]]"

definition ex_cwd :: path where
  "ex_cwd = \<lparr>anchor = ''/'', parts = [''nb'']\<rparr>"





text \<open>A second point layer, with the same features having a height.\<close>

definition ex_points_z :: frame where
  "ex_points_z = read_frame [''geometry'', ''owner'']
     [[GeomV (Point2 1 2), NullV],
      [GeomV (Point3 3 4 5), StrV ''city'']]"

section \<open>Theorems\<close>

subsection \<open>The axis swap\<close>

lemma swap_cell_point: "is_point c \<Longrightarrow> swap_cell c = Inr (exchanged c)"
  by (cases c rule: is_point.cases) (simp_all add: swap_xy_def)

lemma series_apply_points:
  "list_all is_point (map snd s) \<Longrightarrow>
   series_apply swap_cell s = Inr (map (\<lambda>(l, c). (l, exchanged c)) s)"
  by (induction s) (auto simp: swap_cell_point)

text \<open>
  C2. The swap maps the point \<open>(x, y)\<close> to the point \<open>(y, x)\<close> and the point
  \<open>(x, y, z)\<close> to the point \<open>(y, x, z)\<close>: the first two coordinates are exchanged and
  the third, when present, is kept. Applied to a geometry column of points it does so
  for the geometry of every feature, keeping the labels.
\<close>

theorem swap_xy_exchanges_first_two:
  "swap_xy (Point2 x y) = Inr (Point2 y x) \<and> swap_xy (Point3 x y z) = Inr (Point3 y x z) \<and>
   (list_all is_point (map snd s) \<longrightarrow>
      series_apply swap_cell s = Inr (map (\<lambda>(l, c). (l, exchanged c)) s))"
  by (simp add: swap_xy_def series_apply_points)

text \<open>Two bicycle pumps, one with a height.\<close>

theorem swap_xy_exchanges_first_two_witness:
  "list_all is_point [GeomV (Point2 6580000 150000), GeomV (Point3 6581000 151000 12)] \<and>
   series_apply swap_cell [(0, GeomV (Point2 6580000 150000)), (1, GeomV (Point3 6581000 151000 12))] =
     Inr [(0, GeomV (Point2 150000 6580000)), (1, GeomV (Point3 151000 6581000 12))]"
  using swap_xy_exchanges_first_two
    [of 0 0 0 "[(0, GeomV (Point2 6580000 150000)), (1, GeomV (Point3 6581000 151000 12))]"]
  by simp

text \<open>
  C9. Swapping twice gives back the point, with or without a third coordinate.
\<close>

theorem swap_xy_involution:
  "bind (swap_xy (Point2 x y)) swap_xy = Inr (Point2 x y) \<and>
   bind (swap_xy (Point3 x y z)) swap_xy = Inr (Point3 x y z)"
  by (simp add: swap_xy_def)

subsection \<open>Rows, columns and labels\<close>

lemma filter_label_unique:
  "distinct (map fst xs) \<Longrightarrow> (i, r) \<in> set xs \<Longrightarrow>
   filter (\<lambda>(l, v). l = i) (map (\<lambda>(l, r). (l, f r)) xs) = [(i, f r)]"
proof (induction xs)
  case Nil
  then show ?case by simp
next
  case (Cons x xs)
  obtain l q where x: "x = (l, q)" by (cases x)
  show ?case
  proof (cases "l = i")
    case True
    with Cons.prems x have "q = r" by (auto simp: rev_image_eqI)
    moreover from True Cons.prems x
    have "filter (\<lambda>(l, v). l = i) (map (\<lambda>(l, r). (l, f r)) xs) = []"
      by (auto simp: filter_empty_conv rev_image_eqI)
    ultimately show ?thesis using True x by simp
  next
    case False
    with Cons x show ?thesis by auto
  qed
qed

lemma row_getitem_col:
  "row_getitem cols r c = Inr v \<Longrightarrow> c \<in> set cols \<and> cell_at cols r c = v"
  by (auto simp: row_getitem_def cell_at_def split: option.splits
      dest!: map_of_SomeD set_zip_leftD)

lemma ex_frame_rows:
  "rows ex_frame =
     [(0, [IntV 901, StrV ''Vattenyta'', GeomV (Polygon [(0, 0), (2, 0), (2, 1), (0, 1)])]),
      (1, [IntV 302, StrV ''Skog'', GeomV (Polygon [(0, 0), (1, 0), (0, 1)])]),
      (2, [IntV 901, StrV ''Vattenyta'', GeomV (Polygon [(0, 0), (1, 0), (1, 1), (0, 1)])]),
      (3, [IntV 302, NullV, NullV])]"
  by (simp add: ex_frame_def read_frame_def)

lemma ex_frame_columns: "columns ex_frame = [''ID_CLASS'', ''CLASS_NAME'', ''geometry'']"
  by (simp add: ex_frame_def read_frame_def)

subsection \<open>The two ways to a row's area\<close>

text \<open>
  C8, as the code has it. In a data set whose index labels are distinct, as they are
  in a frame read from a file, every row that has a geometry gets the same area from
  \<^verbatim>\<open>row["geometry"].area\<close> and from \<^verbatim>\<open>data_set.area[i]\<close>, and both succeed.
\<close>

theorem area_by_iterrows_eq_area_by_property:
  assumes "distinct (map fst (rows df))" and "(i, r) \<in> set (rows df)"
    and "row_getitem (columns df) r ''geometry'' = Inr (GeomV g)"
  shows "area_by_iterrows area df (i, r) = area_by_property area df (i, r) \<and>
         area_by_property area df (i, r) = Inr (NumV (area g))"
proof -
  from assms(3) have c: "''geometry'' \<in> set (columns df)"
    and v: "cell_at (columns df) r ''geometry'' = GeomV g"
    using row_getitem_col by blast+
  have it: "area_by_iterrows area df (i, r) = Inr (NumV (area g))"
    using assms(3) by (simp add: area_by_iterrows_def cell_area_def)
  have "filter (\<lambda>(l, v). l = i)
          (map (\<lambda>(l, r). (l, area_or_nan area (cell_at (columns df) r ''geometry''))) (rows df))
        = [(i, area_or_nan area (cell_at (columns df) r ''geometry''))]"
    using assms(1,2) by (rule filter_label_unique)
  then have "area_by_property area df (i, r) = Inr (NumV (area g))"
    using c v by (simp add: area_by_property_def frame_area_def series_at_def area_or_nan_def)
  with it show ?thesis by simp
qed

text \<open>The second row of the example data set: a triangle of area one half.\<close>

theorem area_by_iterrows_eq_area_by_property_witness:
  "distinct (map fst (rows ex_frame)) \<and>
   (1, [IntV 302, StrV ''Skog'', GeomV (Polygon [(0, 0), (1, 0), (0, 1)])]) \<in> set (rows ex_frame) \<and>
   row_getitem (columns ex_frame) [IntV 302, StrV ''Skog'', GeomV (Polygon [(0, 0), (1, 0), (0, 1)])]
     ''geometry'' = Inr (GeomV (Polygon [(0, 0), (1, 0), (0, 1)])) \<and>
   area_by_iterrows planar_area ex_frame
     (1, [IntV 302, StrV ''Skog'', GeomV (Polygon [(0, 0), (1, 0), (0, 1)])]) =
   area_by_property planar_area ex_frame
     (1, [IntV 302, StrV ''Skog'', GeomV (Polygon [(0, 0), (1, 0), (0, 1)])]) \<and>
   area_by_property planar_area ex_frame
     (1, [IntV 302, StrV ''Skog'', GeomV (Polygon [(0, 0), (1, 0), (0, 1)])]) = Inr (NumV (1 / 2))"
proof -
  have h1: "distinct (map fst (rows ex_frame))"
    by (simp add: ex_frame_rows)
  have h2: "(1, [IntV 302, StrV ''Skog'', GeomV (Polygon [(0, 0), (1, 0), (0, 1)])])
              \<in> set (rows ex_frame)"
    by (simp add: ex_frame_rows)
  have h3: "row_getitem (columns ex_frame)
              [IntV 302, StrV ''Skog'', GeomV (Polygon [(0, 0), (1, 0), (0, 1)])] ''geometry''
            = Inr (GeomV (Polygon [(0, 0), (1, 0), (0, 1)]))"
    by (simp add: ex_frame_columns row_getitem_def)
  from area_by_iterrows_eq_area_by_property [OF h1 h2 h3, of planar_area] h1 h2 h3
  show ?thesis by simp
qed

text \<open>
  The claim as stated, for every row, fails at a row without a geometry: the fourth
  row of the example data set. There \<^verbatim>\<open>row["geometry"]\<close> is \<open>None\<close>, whose \<open>area\<close>
  raises, while \<^verbatim>\<open>data_set.area[3]\<close> is the missing value.
\<close>

theorem area_by_iterrows_eq_area_by_property_counterexample:
  "area_by_iterrows planar_area ex_frame (3, [IntV 302, NullV, NullV]) = Inl (AttributeError ''area'') \<and>
   area_by_property planar_area ex_frame (3, [IntV 302, NullV, NullV]) = Inr NullV \<and>
   area_by_iterrows planar_area ex_frame (3, [IntV 302, NullV, NullV]) \<noteq>
   area_by_property planar_area ex_frame (3, [IntV 302, NullV, NullV])"
  by (simp add: area_by_iterrows_def area_by_property_def ex_frame_rows ex_frame_columns
      row_getitem_def cell_area_def frame_area_def series_at_def area_or_nan_def cell_at_def)

subsection \<open>Paths and file names\<close>

lemma split_sep_no_sep: "sep \<notin> set s \<Longrightarrow> split_sep sep s = [s]"
  by (induction s) auto

lemma parse_path_file_name: "is_file_name n \<Longrightarrow> parse_path n = \<lparr>anchor = [], parts = [n]\<rparr>"
  by (cases n) (auto simp: is_file_name_def parse_path_def leading_slashes_def split_sep_no_sep)

lemma truediv_file_name:
  "is_file_name n \<Longrightarrow> truediv p n = \<lparr>anchor = anchor p, parts = parts p @ [n]\<rparr>"
  by (simp add: truediv_def parse_path_file_name)

lemma parent_name_truediv:
  "is_file_name n \<Longrightarrow> path_parent (truediv B n) = B \<and> path_name (truediv B n) = n"
  by (simp add: truediv_file_name path_parent_def path_name_def)

lemma is_file_name_lu_name: "is_file_name (lu_name k) \<longleftrightarrow> CHR ''/'' \<notin> set k"
  by (auto simp: is_file_name_def lu_name_def)


subsection \<open>Groups\<close>

lemma string_keys_Inr:
  "string_keys cs = Inr ks \<Longrightarrow> ks = concat (map cell_string cs)"
proof (induction cs arbitrary: ks rule: string_keys.induct)
  case 1
  then show ?case by simp
next
  case (2 k cs)
  then show ?case by (cases "string_keys cs") auto
qed auto

lemma string_keys_strings:
  "list_all has_class_name cs \<Longrightarrow> string_keys cs = Inr (concat (map cell_string cs))"
proof (induction cs)
  case Nil
  then show ?case by simp
next
  case (Cons c cs)
  then show ?case by (cases c) simp_all
qed

lemma groupby_class_names:
  assumes "groupby df ''CLASS_NAME'' = Inr gs"
  shows "gs = map (\<lambda>k. (k, group_rows df ''CLASS_NAME'' k)) (sort (remdups (class_names df)))"
proof -
  from assms have c: "''CLASS_NAME'' \<in> set (columns df)"
    by (auto simp: groupby_def getitem_col_def split: if_splits)
  let ?cs = "map snd (map (\<lambda>(l, r). (l, cell_at (columns df) r ''CLASS_NAME'')) (rows df))"
  from assms c obtain ks where ks: "string_keys ?cs = Inr ks"
    and gs: "gs = map (\<lambda>k. (k, group_rows df ''CLASS_NAME'' k)) (sort (remdups ks))"
    by (cases "string_keys ?cs") (auto simp: groupby_def getitem_col_def)
  have "ks = concat (map cell_string ?cs)" using ks by (rule string_keys_Inr)
  also have "\<dots> = class_names df"
    by (simp add: class_names_def column_strings_def comp_def case_prod_unfold)
  finally show ?thesis using gs by simp
qed

lemma cell_string_mem: "k \<in> set (cell_string c) \<longleftrightarrow> c = StrV k"
  by (cases c) auto

lemma class_names_mem:
  "k \<in> set (class_names df) \<longleftrightarrow>
   (\<exists>(l, r) \<in> set (rows df). cell_at (columns df) r ''CLASS_NAME'' = StrV k)"
  by (auto simp: class_names_def column_strings_def cell_string_mem)

lemma ex_frame_class_names: "class_names ex_frame = [''Vattenyta'', ''Skog'', ''Vattenyta'']"
  by (simp add: class_names_def column_strings_def ex_frame_rows ex_frame_columns cell_at_def)

lemma ex_frame_groupby:
  "groupby ex_frame ''CLASS_NAME'' =
     Inr [(''Skog'', \<lparr>columns = [''ID_CLASS'', ''CLASS_NAME'', ''geometry''],
             rows = [(1, [IntV 302, StrV ''Skog'', GeomV (Polygon [(0, 0), (1, 0), (0, 1)])])]\<rparr>),
          (''Vattenyta'', \<lparr>columns = [''ID_CLASS'', ''CLASS_NAME'', ''geometry''],
             rows = [(0, [IntV 901, StrV ''Vattenyta'',
                          GeomV (Polygon [(0, 0), (2, 0), (2, 1), (0, 1)])]),
                     (2, [IntV 901, StrV ''Vattenyta'',
                          GeomV (Polygon [(0, 0), (1, 0), (1, 1), (0, 1)])])]\<rparr>)]"
  by (simp add: groupby_def getitem_col_def ex_frame_def read_frame_def cell_at_def group_rows_def)

subsection \<open>The files of the fan-out loop\<close>










subsection \<open>The area column and its sums\<close>

lemma map_of_zip_None: "c \<notin> set cols \<Longrightarrow> map_of (zip cols r) c = None"
  by (auto simp: map_of_eq_None_iff dest: set_zip_leftD)

lemma map_of_zip_put_same:
  "length r = length cols \<Longrightarrow> c \<in> set cols \<Longrightarrow>
   map_of (zip cols (map (\<lambda>(k, old). if k = c then v else old) (zip cols r))) c = Some v"
proof (induction cols arbitrary: r)
  case Nil
  then show ?case by simp
next
  case (Cons a cols)
  then obtain x r' where r: "r = x # r'" by (cases r) auto
  with Cons show ?case by auto
qed

lemma map_of_zip_put_other:
  "length r = length cols \<Longrightarrow> c' \<noteq> c \<Longrightarrow>
   map_of (zip cols (map (\<lambda>(k, old). if k = c then v else old) (zip cols r))) c' =
   map_of (zip cols r) c'"
proof (induction cols arbitrary: r)
  case Nil
  then show ?case by simp
next
  case (Cons a cols)
  then obtain x r' where r: "r = x # r'" by (cases r) auto
  with Cons show ?case by auto
qed

lemma cell_at_put_cell_same:
  "length r = length cols \<Longrightarrow>
   cell_at (if c \<in> set cols then cols else cols @ [c]) (put_cell cols c r v) c = v"
  by (simp add: cell_at_def put_cell_def map_of_zip_put_same map_of_zip_None map_add_def)

lemma cell_at_put_cell_other:
  "length r = length cols \<Longrightarrow> c' \<noteq> c \<Longrightarrow>
   cell_at (if c \<in> set cols then cols else cols @ [c]) (put_cell cols c r v) c' = cell_at cols r c'"
  by (simp add: cell_at_def put_cell_def map_of_zip_put_other map_of_zip_None map_add_def
      split: option.splits)


lemma with_area_column_eq:
  assumes "''geometry'' \<in> set (columns df)"
  shows "with_area_column area df =
     Inr \<lparr>columns = (if ''area'' \<in> set (columns df) then columns df else columns df @ [''area'']),
          rows = map (\<lambda>(l, r). (l, put_cell (columns df) ''area'' r
                   (area_or_nan area (cell_at (columns df) r ''geometry'')))) (rows df)\<rparr>"
proof -
  let ?A = "\<lambda>r. area_or_nan area (cell_at (columns df) r ''geometry'')"
  let ?s = "map (\<lambda>(l, r). (l, ?A r)) (rows df)"
  have fa: "frame_area area df = Inr ?s" using assms by (simp add: frame_area_def)
  have labels: "map fst ?s = map fst (rows df)" by (simp add: comp_def case_prod_unfold)
  have z: "map (\<lambda>((l, r), v). (l, put_cell (columns df) ''area'' r v)) (zip (rows df) (map snd ?s))
         = map (\<lambda>(l, r). (l, put_cell (columns df) ''area'' r (?A r))) (rows df)"
    by (simp add: zip_map2 zip_same_conv_map comp_def case_prod_unfold)
  show ?thesis
    unfolding with_area_column_def fa bind.simps setitem_col_def Let_def
    using labels z by simp
qed

lemma sum_cells_areas:
  "sum_cells (map (area_or_nan area) cs) =
     Inr (sum_list (map (\<lambda>c. case c of GeomV g \<Rightarrow> area g | _ \<Rightarrow> 0) cs))"
proof (induction cs)
  case Nil
  then show ?case by simp
next
  case (Cons c cs)
  then show ?case by (cases c) (simp_all add: area_or_nan_def)
qed

text \<open>
  C3. For a data set with a geometry column and a \<open>CLASS_NAME\<close> column of class
  names, the notebook's area column followed by
  \<^verbatim>\<open>groupby("CLASS_NAME").area.sum()\<close> maps each distinct class name, in
  ascending order, to the sum over exactly the rows of that class of the area of the
  row's geometry.
\<close>

theorem area_information_sums_class_areas:
  assumes ok: "frame_ok df"
    and geo: "''geometry'' \<in> set (columns df)"
    and cn: "''CLASS_NAME'' \<in> set (columns df)"
    and strs: "list_all (\<lambda>(l, r). has_class_name (cell_at (columns df) r ''CLASS_NAME'')) (rows df)"
  shows "bind (with_area_column area df) area_information =
           Inr (map (\<lambda>k. (k, class_area_total area df k)) (sort (remdups (class_names df))))"
proof -
  define cols where "cols = columns df"
  define cols' where "cols' = (if ''area'' \<in> set cols then cols else cols @ [''area''])"
  define A where "A = (\<lambda>r. area_or_nan area (cell_at cols r ''geometry''))"
  define put where "put = (\<lambda>(l :: int, r). (l, put_cell cols ''area'' r (A r)))"
  define df1 where "df1 = \<lparr>columns = cols', rows = map put (rows df)\<rparr>"
  have df1: "with_area_column area df = Inr df1"
    using with_area_column_eq [OF geo, of area]
    by (simp add: df1_def put_def A_def cols'_def cols_def)
  have len: "length r = length cols" if "(l, r) \<in> set (rows df)" for l r
    using ok that by (auto simp: frame_ok_def list_all_iff cols_def)
  have cls: "cell_at cols' (snd (put (l, r))) ''CLASS_NAME'' = cell_at cols r ''CLASS_NAME''"
    if "(l, r) \<in> set (rows df)" for l r
    unfolding cols'_def put_def snd_conv prod.case
    using len [OF that] by (intro cell_at_put_cell_other) simp_all
  have ar: "cell_at cols' (snd (put (l, r))) ''area'' = A r"
    if "(l, r) \<in> set (rows df)" for l r
    unfolding cols'_def put_def snd_conv prod.case
    using len [OF that] by (intro cell_at_put_cell_same)
  have fst_put: "fst (put x) = fst x" for x by (simp add: put_def case_prod_unfold)
  have cn': "''CLASS_NAME'' \<in> set cols'" and a': "''area'' \<in> set cols'"
    using cn by (auto simp: cols'_def cols_def)
  have col: "map (\<lambda>(l, r). (l, cell_at cols' r ''CLASS_NAME'')) (map put (rows df))
           = map (\<lambda>(l, r). (l, cell_at cols r ''CLASS_NAME'')) (rows df)"
    using cls by (auto simp: case_prod_unfold fst_put)
  have keys: "string_keys (map snd (map (\<lambda>(l, r). (l, cell_at cols r ''CLASS_NAME'')) (rows df)))
            = Inr (class_names df)"
  proof -
    have "list_all has_class_name (map snd (map (\<lambda>(l, r). (l, cell_at cols r ''CLASS_NAME'')) (rows df)))"
      using strs by (auto simp: list_all_iff cols_def)
    then show ?thesis
      by (simp add: string_keys_strings class_names_def column_strings_def comp_def case_prod_unfold cols_def)
  qed
  have gb: "groupby df1 ''CLASS_NAME'' =
              Inr (map (\<lambda>k. (k, group_rows df1 ''CLASS_NAME'' k)) (sort (remdups (class_names df))))"
  proof -
    have "getitem_col df1 ''CLASS_NAME'' =
            Inr (map (\<lambda>(l, r). (l, cell_at cols r ''CLASS_NAME'')) (rows df))"
      unfolding getitem_col_def df1_def by (simp only: frame.select_convs cn' if_True col)
    then show ?thesis
      unfolding groupby_def by (simp only: keys bind.simps)
  qed
  have grp: "bind (getitem_col (group_rows df1 ''CLASS_NAME'' k) ''area'') (\<lambda>s. sum_cells (map snd s))
           = Inr (class_area_total area df k)" for k
  proof -
    have f: "filter (\<lambda>(l, r). cell_at cols' r ''CLASS_NAME'' = StrV k) (map put (rows df))
           = map put (filter (\<lambda>(l, r). cell_at cols r ''CLASS_NAME'' = StrV k) (rows df))"
      unfolding filter_map comp_def case_prod_unfold
      using cls by (intro arg_cong[where f="map put"] filter_cong) auto
    have eq: "map snd (map (\<lambda>(l, r). (l, cell_at cols' r ''area''))
             (map put (filter (\<lambda>(l, r). cell_at cols r ''CLASS_NAME'' = StrV k) (rows df))))
        = map (area_or_nan area) (map (\<lambda>(l, r). cell_at cols r ''geometry'')
             (filter (\<lambda>(l, r). cell_at cols r ''CLASS_NAME'' = StrV k) (rows df)))"
      using ar by (auto simp: case_prod_unfold A_def)
    have "sum_cells (map snd (map (\<lambda>(l, r). (l, cell_at cols' r ''area''))
             (map put (filter (\<lambda>(l, r). cell_at cols r ''CLASS_NAME'' = StrV k) (rows df)))))
        = Inr (class_area_total area df k)"
      unfolding eq
      by (simp only: sum_cells_areas)
         (simp add: class_area_total_def comp_def case_prod_unfold cols_def)
    moreover have "getitem_col (group_rows df1 ''CLASS_NAME'' k) ''area'' =
        Inr (map (\<lambda>(l, r). (l, cell_at cols' r ''area''))
             (map put (filter (\<lambda>(l, r). cell_at cols r ''CLASS_NAME'' = StrV k) (rows df))))"
      unfolding getitem_col_def group_rows_def df1_def
      by (simp only: frame.select_convs frame.update_convs a' if_True f)
    ultimately show ?thesis by (simp only: bind.simps)
  qed
  have sums: "sum_groups ''area'' (map (\<lambda>k. (k, group_rows df1 ''CLASS_NAME'' k)) ks)
            = Inr (map (\<lambda>k. (k, class_area_total area df k)) ks)" for ks
  proof (induction ks)
    case Nil
    then show ?case by simp
  next
    case (Cons k ks)
    from grp [of k] obtain s where s: "getitem_col (group_rows df1 ''CLASS_NAME'' k) ''area'' = Inr s"
      and t: "sum_cells (map snd s) = Inr (class_area_total area df k)"
      by (cases "getitem_col (group_rows df1 ''CLASS_NAME'' k) ''area''") auto
    show ?case by (simp add: s t Cons.IH)
  qed
  have "columns df1 = cols'" by (simp add: df1_def)
  with a' show ?thesis
    by (simp add: df1 area_information_def gb sums)
qed

lemma ex_frame_ok: "frame_ok ex_frame"
  by (simp add: frame_ok_def ex_frame_rows ex_frame_columns)

text \<open>
  On the example data set: the forest triangle of area one half, and the two water
  rectangles of areas 2 and 1.
\<close>

theorem area_information_sums_class_areas_witness:
  "frame_ok ex_frame \<and> ''geometry'' \<in> set (columns ex_frame) \<and>
   ''CLASS_NAME'' \<in> set (columns ex_frame) \<and>
   bind (with_area_column planar_area ex_frame) area_information =
     Inr [(''Skog'', 1 / 2), (''Vattenyta'', 3)]"
proof -
  have geo: "''geometry'' \<in> set (columns ex_frame)" by (simp add: ex_frame_columns)
  have cn: "''CLASS_NAME'' \<in> set (columns ex_frame)" by (simp add: ex_frame_columns)
  have strs: "list_all (\<lambda>(l, r). has_class_name (cell_at (columns ex_frame) r ''CLASS_NAME''))
                (rows ex_frame)"
    by (simp add: ex_frame_rows ex_frame_columns cell_at_def)
  have keys: "sort (remdups (class_names ex_frame)) = [''Skog'', ''Vattenyta'']"
    by (simp add: ex_frame_class_names)
  have t1: "class_area_total planar_area ex_frame ''Skog'' = 1 / 2"
    by (simp add: class_area_total_def ex_frame_rows ex_frame_columns cell_at_def)
  have t2: "class_area_total planar_area ex_frame ''Vattenyta'' = 3"
    by (simp add: class_area_total_def ex_frame_rows ex_frame_columns cell_at_def)
  from area_information_sums_class_areas [OF ex_frame_ok geo cn strs, of planar_area]
  show ?thesis by (simp add: keys t1 t2 ex_frame_ok geo cn)
qed

subsection \<open>Operations that return a new frame\<close>

lemma filter_by_mask: "map fst (filter snd (zip xs (map P xs))) = filter P xs"
  by (induction xs) auto

lemma getitem_mask_series_eq:
  "getitem_mask df (series_eq (map (\<lambda>(l, r). (l, cell_at (columns df) r c)) (rows df)) v) =
     Inr (df\<lparr>rows := filter (\<lambda>(l, r). cell_eq (cell_at (columns df) r c) v) (rows df)\<rparr>)"
proof -
  have "map fst (series_eq (map (\<lambda>(l, r). (l, cell_at (columns df) r c)) (rows df)) v)
        = map fst (rows df)"
    by (simp add: series_eq_def comp_def case_prod_unfold)
  moreover have "map snd (series_eq (map (\<lambda>(l, r). (l, cell_at (columns df) r c)) (rows df)) v)
        = map (\<lambda>(l, r). cell_eq (cell_at (columns df) r c) v) (rows df)"
    by (simp add: series_eq_def comp_def case_prod_unfold)
  ultimately show ?thesis
    by (simp only: getitem_mask_def filter_by_mask) simp
qed

text \<open>
  C10. Selecting the rows that satisfy a condition and renaming columns each put a
  new frame behind the existing ones and return its address: the frame they were
  applied to, and every other frame that existed, still has its rows, columns and
  values. The new frame holds the renamed columns, or the selected rows.
\<close>

theorem new_frame_leaves_input_unchanged:
  "(rename st a m = Inr (st1, a1) \<longrightarrow>
      a < length st \<and> a1 \<noteq> a \<and> take (length st) st1 = st \<and> load st1 a = load st a \<and>
      load st1 a1 = Inr (rename_columns m (st ! a))) \<and>
   (select_equal st a c v = Inr (st2, a2) \<longrightarrow>
      a < length st \<and> a2 \<noteq> a \<and> take (length st) st2 = st \<and> load st2 a = load st a \<and>
      load st2 a2 = Inr ((st ! a)\<lparr>rows :=
         filter (\<lambda>(l, r). cell_eq (cell_at (columns (st ! a)) r c) v) (rows (st ! a))\<rparr>))"
proof (intro conjI impI)
  assume r: "rename st a m = Inr (st1, a1)"
  then have a: "a < length st" by (auto simp: rename_def load_def split: if_splits)
  with r have "st1 = st @ [rename_columns m (st ! a)]" and "a1 = length st"
    by (auto simp: rename_def load_def alloc_def)
  with a show "a < length st" "a1 \<noteq> a" "take (length st) st1 = st" "load st1 a = load st a"
    "load st1 a1 = Inr (rename_columns m (st ! a))"
    by (auto simp: load_def nth_append)
next
  assume s: "select_equal st a c v = Inr (st2, a2)"
  then have a: "a < length st" by (auto simp: select_equal_def load_def split: if_splits)
  let ?df = "st ! a"
  from s a have c: "c \<in> set (columns ?df)" "\<not> own_attribute c"
    by (auto simp: select_equal_def load_def getattr_col_def split: if_splits)
  let ?new = "?df\<lparr>rows := filter (\<lambda>(l, r). cell_eq (cell_at (columns ?df) r c) v) (rows ?df)\<rparr>"
  from s a c have "st2 = st @ [?new]" and "a2 = length st"
    by (auto simp: select_equal_def load_def getattr_col_def getitem_mask_series_eq alloc_def)
  with a show "a < length st" "a2 \<noteq> a" "take (length st) st2 = st" "load st2 a = load st a"
    "load st2 a2 = Inr ?new"
    by (auto simp: load_def nth_append)
qed

text \<open>Renaming \<open>ID_CLASS\<close> and selecting the water bodies of the example data set.\<close>

theorem new_frame_leaves_input_unchanged_witness:
  "rename [ex_frame] 0 [(''ID_CLASS'', ''KKOD'')] =
     Inr ([ex_frame, rename_columns [(''ID_CLASS'', ''KKOD'')] ex_frame], 1) \<and>
   load [ex_frame, rename_columns [(''ID_CLASS'', ''KKOD'')] ex_frame] 0 = Inr ex_frame \<and>
   columns (rename_columns [(''ID_CLASS'', ''KKOD'')] ex_frame) = [''KKOD'', ''CLASS_NAME'', ''geometry''] \<and>
   select_equal [ex_frame] 0 ''ID_CLASS'' (IntV 901) =
     Inr ([ex_frame, ex_frame\<lparr>rows :=
            [(0, [IntV 901, StrV ''Vattenyta'', GeomV (Polygon [(0, 0), (2, 0), (2, 1), (0, 1)])]),
             (2, [IntV 901, StrV ''Vattenyta'', GeomV (Polygon [(0, 0), (1, 0), (1, 1), (0, 1)])])]\<rparr>], 1) \<and>
   load [ex_frame, ex_frame\<lparr>rows :=
            [(0, [IntV 901, StrV ''Vattenyta'', GeomV (Polygon [(0, 0), (2, 0), (2, 1), (0, 1)])]),
             (2, [IntV 901, StrV ''Vattenyta'', GeomV (Polygon [(0, 0), (1, 0), (1, 1), (0, 1)])])]\<rparr>] 0
     = Inr ex_frame"
proof -
  let ?w = "ex_frame\<lparr>rows :=
            [(0, [IntV 901, StrV ''Vattenyta'', GeomV (Polygon [(0, 0), (2, 0), (2, 1), (0, 1)])]),
             (2, [IntV 901, StrV ''Vattenyta'', GeomV (Polygon [(0, 0), (1, 0), (1, 1), (0, 1)])])]\<rparr>"
  have r: "rename [ex_frame] 0 [(''ID_CLASS'', ''KKOD'')] =
             Inr ([ex_frame, rename_columns [(''ID_CLASS'', ''KKOD'')] ex_frame], 1)"
    by (simp add: rename_def load_def alloc_def)
  have "filter (\<lambda>(l, r). cell_eq (cell_at (columns ex_frame) r ''ID_CLASS'') (IntV 901))
          (rows ex_frame) = rows ?w"
    by (simp add: ex_frame_rows ex_frame_columns cell_at_def)
  moreover have "''ID_CLASS'' \<in> set (columns ex_frame)"
    by (simp add: ex_frame_columns)
  moreover have "\<not> own_attribute ''ID_CLASS''"
    by (simp add: own_attribute_def)
  ultimately have s: "select_equal [ex_frame] 0 ''ID_CLASS'' (IntV 901) = Inr ([ex_frame, ?w], 1)"
    by (simp add: select_equal_def load_def getattr_col_def getitem_mask_series_eq alloc_def)
  have c: "columns (rename_columns [(''ID_CLASS'', ''KKOD'')] ex_frame) =
             [''KKOD'', ''CLASS_NAME'', ''geometry'']"
    by (simp add: rename_columns_def ex_frame_columns)
  from new_frame_leaves_input_unchanged
    [of "[ex_frame]" 0 "[(''ID_CLASS'', ''KKOD'')]"
       "[ex_frame, rename_columns [(''ID_CLASS'', ''KKOD'')] ex_frame]" 1
       "''ID_CLASS''" "IntV 901" "[ex_frame, ?w]" 1]
  show ?thesis using r s c by (simp add: load_def)
qed

text \<open>
  By contrast the assignment of the area column changes the frame at its address.
\<close>

lemma store_area_in_place:
  "store_area area st a = Inr st' \<Longrightarrow>
   length st' = length st \<and> a < length st \<and> with_area_column area (st ! a) = Inr (st' ! a)"
  by (cases "with_area_column area (st ! a)")
     (auto simp: store_area_def load_def split: if_splits)

subsection \<open>Joining a directory and a file name\<close>

lemma is_file_name_literals:
  "is_file_name ''data''" "is_file_name ''UGA_adm1_2011.shp''" "is_file_name ''nuts_1.gpkg''"
  "is_file_name ''nuts_1.gjson''" "is_file_name ''cykelpump_punkt.gpkg''"
  "is_file_name ''cykelpump_punkt.gml''"
  "is_file_name ''Landusepolygon.shp''" "is_file_name ''water_bodies.shp''"
  "is_file_name ''area_by_LU_class.csv''"
  by (simp_all add: is_file_name_def)

lemma DATA_DIRECTORY_parts:
  "DATA_DIRECTORY cwd = \<lparr>anchor = anchor cwd, parts = parts cwd @ [''data'']\<rparr>"
  by (simp add: DATA_DIRECTORY_def NOTEBOOK_PATH_def truediv_file_name is_file_name_literals)

lemma parse_data_csv:
  "parse_path ''data/area_by_LU_class.csv'' = \<lparr>anchor = [], parts = [''data'', ''area_by_LU_class.csv'']\<rparr>"
  by (simp add: parse_path_def leading_slashes_def)

text \<open>A string with a separator in it has at least two components when it is split.\<close>

lemma split_sep_not_Nil: "split_sep sep s \<noteq> []"
  by (induction s) (auto split: list.splits)

lemma split_sep_first:
  "sep \<notin> set a \<Longrightarrow> split_sep sep (a @ sep # b) = a # split_sep sep b"
  by (induction a) auto

lemma split_sep_append:
  "sep \<notin> set v \<Longrightarrow>
   split_sep sep (u @ v) = butlast (split_sep sep u) @ [last (split_sep sep u) @ v]"
proof (induction u)
  case Nil
  then show ?case by (simp add: split_sep_no_sep)
next
  case (Cons c u)
  obtain w ws where S: "split_sep sep u = w # ws"
    using split_sep_not_Nil [of sep u] by (cases "split_sep sep u") auto
  show ?case
  proof (cases "c = sep")
    case True
    with Cons S show ?thesis by simp
  next
    case False
    with Cons S show ?thesis by (cases ws) simp_all
  qed
qed

lemma split_sep_last:
  "sep \<notin> set v \<Longrightarrow> last (split_sep sep (u @ v)) = last (split_sep sep u) @ v"
  by (simp add: split_sep_append)

lemma filter_two:
  assumes "P w" and "ws \<noteq> []" and "P (last ws)"
  shows "2 \<le> length (filter P (w # ws))"
proof -
  from assms(2) have "last ws \<in> set ws" by simp
  with assms(3) have "filter P ws \<noteq> []" by (auto simp: filter_empty_conv)
  then have "1 \<le> length (filter P ws)" by (cases "filter P ws") auto
  with assms(1) show ?thesis by simp
qed

lemma lu_name_two_parts:
  assumes "CHR ''/'' \<in> set key"
  shows "anchor (parse_path (lu_name key)) = [] \<and> 2 \<le> length (parts (parse_path (lu_name key)))"
proof -
  from assms obtain a b where key: "key = a @ CHR ''/'' # b" and a: "CHR ''/'' \<notin> set a"
    by (auto dest: split_list_first)
  let ?P = "\<lambda>w. w \<noteq> [] \<and> w \<noteq> ''.''"
  have name: "lu_name key = (''LU_'' @ a) @ CHR ''/'' # (b @ ''.shp'')"
    by (simp add: lu_name_def key)
  have "CHR ''/'' \<notin> set (''LU_'' @ a)" using a by simp
  then have split: "split_sep CHR ''/'' (lu_name key) = (''LU_'' @ a) # split_sep CHR ''/'' (b @ ''.shp'')"
    unfolding name by (rule split_sep_first)
  have "last (split_sep CHR ''/'' (b @ ''.shp'')) = last (split_sep CHR ''/'' b) @ ''.shp''"
    by (rule split_sep_last) simp
  then have "?P (last (split_sep CHR ''/'' (b @ ''.shp'')))" by simp
  moreover have "?P (''LU_'' @ a)" by simp
  ultimately have "2 \<le> length (filter ?P ((''LU_'' @ a) # split_sep CHR ''/'' (b @ ''.shp'')))"
    using split_sep_not_Nil by (intro filter_two)
  then show ?thesis
    by (simp add: parse_path_def split) (simp add: lu_name_def leading_slashes_def)
qed

lemma lu_name_parent:
  "path_parent (truediv B (lu_name key)) = B \<longleftrightarrow> CHR ''/'' \<notin> set key"
proof (cases "CHR ''/'' \<in> set key")
  case False
  then show ?thesis by (simp add: parent_name_truediv is_file_name_lu_name)
next
  case True
  let ?q = "parts (parse_path (lu_name key))"
  from lu_name_two_parts [OF True] have an: "anchor (parse_path (lu_name key)) = []"
    and two: "2 \<le> length ?q" by simp_all
  from two have q: "?q \<noteq> []" "butlast ?q \<noteq> []"
    by (auto simp: butlast_conv_take)
  have "parts (path_parent (truediv B (lu_name key))) = parts B @ butlast ?q"
    using q by (simp add: truediv_def Let_def an path_parent_def butlast_append)
  with q have "parts (path_parent (truediv B (lu_name key))) \<noteq> parts B" by simp
  then have "path_parent (truediv B (lu_name key)) \<noteq> B" by auto
  with True show ?thesis by simp
qed

text \<open>
  C7, as the code has it. For every directory \<open>B\<close> and file name \<open>n\<close> the path
  \<open>B / n\<close> has the parent \<open>B\<close> and the final component \<open>n\<close>; \<open>DATA_DIRECTORY\<close> is
  the notebook directory with the one component \<open>data\<close> appended. The file arguments
  of the notebooks are the fixed ones and one group file for each key; every fixed one
  that is built from \<open>DATA_DIRECTORY\<close> lies directly in that directory, and the group
  file of a key does so exactly when the key has no path separator. The notebooks also
  name files by string literals: \<open>nuts_1.gpkg\<close> and \<open>cykelpump_punkt.gml\<close> lie in
  the notebook directory itself, and the summary table is written through the literal
  \<open>data/area_by_LU_class.csv\<close>.
\<close>

theorem truediv_appends_file_name:
  "(is_file_name n \<longrightarrow> path_parent (truediv B n) = B \<and> path_name (truediv B n) = n) \<and>
   DATA_DIRECTORY cwd = \<lparr>anchor = anchor cwd, parts = parts (NOTEBOOK_PATH cwd) @ [''data'']\<rparr> \<and>
   set (file_args keys) =
     set (file_args []) \<union> (\<lambda>key. ViaDataDirectory (lu_name key)) ` set keys \<and>
   (\<forall>a \<in> set (file_args []). via_data_directory a \<longrightarrow>
      path_parent (arg_path cwd a) = DATA_DIRECTORY cwd) \<and>
   (path_parent (arg_path cwd (ViaDataDirectory (lu_name key))) = DATA_DIRECTORY cwd \<longleftrightarrow>
      CHR ''/'' \<notin> set key) \<and>
   path_parent (arg_path cwd (Literal ''nuts_1.gpkg'')) = NOTEBOOK_PATH cwd \<and>
   path_parent (arg_path cwd (Literal ''cykelpump_punkt.gml'')) = NOTEBOOK_PATH cwd \<and>
   path_parent (arg_path cwd (Literal ''data/area_by_LU_class.csv'')) = DATA_DIRECTORY cwd"
proof -
  have args: "set (file_args keys) =
     set (file_args []) \<union> (\<lambda>key. ViaDataDirectory (lu_name key)) ` set keys"
    by (auto simp: file_args_def)
  have via: "\<forall>a \<in> set (file_args []). via_data_directory a \<longrightarrow>
            path_parent (arg_path cwd a) = DATA_DIRECTORY cwd"
    by (simp add: file_args_def parent_name_truediv is_file_name_literals)
  have lit: "path_parent (arg_path cwd (Literal ''nuts_1.gpkg'')) = NOTEBOOK_PATH cwd"
    "path_parent (arg_path cwd (Literal ''cykelpump_punkt.gml'')) = NOTEBOOK_PATH cwd"
    "path_parent (arg_path cwd (Literal ''data/area_by_LU_class.csv'')) = DATA_DIRECTORY cwd"
    by (simp_all add: parse_path_file_name is_file_name_literals parse_data_csv absolute_def
        path_parent_def NOTEBOOK_PATH_def DATA_DIRECTORY_parts butlast_append)
  have join: "is_file_name n \<longrightarrow> path_parent (truediv B n) = B \<and> path_name (truediv B n) = n"
    by (simp add: parent_name_truediv)
  have dd: "DATA_DIRECTORY cwd = \<lparr>anchor = anchor cwd, parts = parts (NOTEBOOK_PATH cwd) @ [''data'']\<rparr>"
    by (simp add: DATA_DIRECTORY_parts NOTEBOOK_PATH_def)
  have lu: "path_parent (arg_path cwd (ViaDataDirectory (lu_name key))) = DATA_DIRECTORY cwd \<longleftrightarrow>
      CHR ''/'' \<notin> set key"
    by (simp add: lu_name_parent)
  from join dd args via lu lit show ?thesis by blast
qed

text \<open>With the notebook in \<open>/nb\<close>, and the keys \<open>Skog\<close> and \<open>a/b\<close>.\<close>

theorem truediv_appends_file_name_witness:
  "is_file_name ''water_bodies.shp'' \<and>
   path_parent (truediv \<lparr>anchor = ''/'', parts = [''nb'', ''data'']\<rparr> ''water_bodies.shp'') =
     \<lparr>anchor = ''/'', parts = [''nb'', ''data'']\<rparr> \<and>
   path_name (truediv \<lparr>anchor = ''/'', parts = [''nb'', ''data'']\<rparr> ''water_bodies.shp'') =
     ''water_bodies.shp'' \<and>
   DATA_DIRECTORY \<lparr>anchor = ''/'', parts = [''nb'']\<rparr> = \<lparr>anchor = ''/'', parts = [''nb'', ''data'']\<rparr> \<and>
   ViaDataDirectory ''water_bodies.shp'' \<in> set (file_args []) \<and>
   path_parent (arg_path \<lparr>anchor = ''/'', parts = [''nb'']\<rparr> (ViaDataDirectory ''water_bodies.shp'')) =
     \<lparr>anchor = ''/'', parts = [''nb'', ''data'']\<rparr> \<and>
   path_parent (arg_path \<lparr>anchor = ''/'', parts = [''nb'']\<rparr> (ViaDataDirectory (lu_name ''Skog''))) =
     \<lparr>anchor = ''/'', parts = [''nb'', ''data'']\<rparr> \<and>
   path_parent (arg_path \<lparr>anchor = ''/'', parts = [''nb'']\<rparr> (ViaDataDirectory (lu_name ''a/b''))) \<noteq>
     \<lparr>anchor = ''/'', parts = [''nb'', ''data'']\<rparr>"
proof -
  have n: "is_file_name ''water_bodies.shp''" by (simp add: is_file_name_def)
  have w: "ViaDataDirectory ''water_bodies.shp'' \<in> set (file_args [])"
    by (simp add: file_args_def)
  note T = truediv_appends_file_name [of "''water_bodies.shp''"
      "\<lparr>anchor = ''/'', parts = [''nb'', ''data'']\<rparr>" "\<lparr>anchor = ''/'', parts = [''nb'']\<rparr>"]
  have d: "DATA_DIRECTORY \<lparr>anchor = ''/'', parts = [''nb'']\<rparr> = \<lparr>anchor = ''/'', parts = [''nb'', ''data'']\<rparr>"
  proof -
    from T [of "[]" "''Skog''"]
    have "DATA_DIRECTORY \<lparr>anchor = ''/'', parts = [''nb'']\<rparr> =
            \<lparr>anchor = anchor \<lparr>anchor = ''/'', parts = [''nb'']\<rparr>,
             parts = parts (NOTEBOOK_PATH \<lparr>anchor = ''/'', parts = [''nb'']\<rparr>) @ [''data'']\<rparr>"
      by blast
    then show ?thesis by (simp add: NOTEBOOK_PATH_def)
  qed
  have "path_parent (truediv \<lparr>anchor = ''/'', parts = [''nb'', ''data'']\<rparr> ''water_bodies.shp'') =
          \<lparr>anchor = ''/'', parts = [''nb'', ''data'']\<rparr> \<and>
        path_name (truediv \<lparr>anchor = ''/'', parts = [''nb'', ''data'']\<rparr> ''water_bodies.shp'') =
          ''water_bodies.shp''"
    using T [of "[]" "''Skog''"] n by blast
  moreover
  have "path_parent (arg_path \<lparr>anchor = ''/'', parts = [''nb'']\<rparr> (ViaDataDirectory ''water_bodies.shp'')) =
          DATA_DIRECTORY \<lparr>anchor = ''/'', parts = [''nb'']\<rparr>"
  proof -
    from T [of "[]" "''Skog''"]
    have "\<forall>a \<in> set (file_args []). via_data_directory a \<longrightarrow>
            path_parent (arg_path \<lparr>anchor = ''/'', parts = [''nb'']\<rparr> a) =
            DATA_DIRECTORY \<lparr>anchor = ''/'', parts = [''nb'']\<rparr>"
      by blast
    from bspec [OF this w] show ?thesis by simp
  qed
  moreover
  have "path_parent (arg_path \<lparr>anchor = ''/'', parts = [''nb'']\<rparr> (ViaDataDirectory (lu_name ''Skog''))) =
          DATA_DIRECTORY \<lparr>anchor = ''/'', parts = [''nb'']\<rparr>"
  proof -
    from T [of "[]" "''Skog''"]
    have "path_parent (arg_path \<lparr>anchor = ''/'', parts = [''nb'']\<rparr> (ViaDataDirectory (lu_name ''Skog''))) =
            DATA_DIRECTORY \<lparr>anchor = ''/'', parts = [''nb'']\<rparr> \<longleftrightarrow> CHR ''/'' \<notin> set ''Skog''"
      by blast
    moreover have "CHR ''/'' \<notin> set ''Skog''" by simp
    ultimately show ?thesis by blast
  qed
  moreover
  have "path_parent (arg_path \<lparr>anchor = ''/'', parts = [''nb'']\<rparr> (ViaDataDirectory (lu_name ''a/b''))) \<noteq>
          DATA_DIRECTORY \<lparr>anchor = ''/'', parts = [''nb'']\<rparr>"
  proof -
    from T [of "[]" "''a/b''"]
    have "path_parent (arg_path \<lparr>anchor = ''/'', parts = [''nb'']\<rparr> (ViaDataDirectory (lu_name ''a/b''))) =
            DATA_DIRECTORY \<lparr>anchor = ''/'', parts = [''nb'']\<rparr> \<longleftrightarrow> CHR ''/'' \<notin> set ''a/b''"
      by blast
    moreover have "CHR ''/'' \<in> set ''a/b''" by simp
    ultimately show ?thesis by blast
  qed
  ultimately show ?thesis using n w d by simp
qed

text \<open>
  The claim as stated, that every data file path is \<open>DATA_DIRECTORY\<close> with the file
  name appended, fails at \<^verbatim>\<open>gdf.to_file('nuts_1.gpkg', driver='GPKG')\<close>: with the
  notebook in \<open>/nb\<close> the file is \<open>/nb/nuts_1.gpkg\<close>, whose parent is not \<open>/nb/data\<close>.
\<close>

theorem truediv_appends_file_name_counterexample:
  "Literal ''nuts_1.gpkg'' \<in> set (file_args []) \<and>
   arg_path \<lparr>anchor = ''/'', parts = [''nb'']\<rparr> (Literal ''nuts_1.gpkg'') =
     \<lparr>anchor = ''/'', parts = [''nb'', ''nuts_1.gpkg'']\<rparr> \<and>
   DATA_DIRECTORY \<lparr>anchor = ''/'', parts = [''nb'']\<rparr> = \<lparr>anchor = ''/'', parts = [''nb'', ''data'']\<rparr> \<and>
   path_parent (arg_path \<lparr>anchor = ''/'', parts = [''nb'']\<rparr> (Literal ''nuts_1.gpkg'')) \<noteq>
     DATA_DIRECTORY \<lparr>anchor = ''/'', parts = [''nb'']\<rparr>"
  by (simp add: file_args_def parse_path_def leading_slashes_def absolute_def path_parent_def
      DATA_DIRECTORY_def NOTEBOOK_PATH_def truediv_def)

subsection \<open>The calls of a run to the end\<close>

lemma then_do_Inr:
  "then_do m f t = (t', Inr v) \<longleftrightarrow> (\<exists>t1 u. m t = (t1, Inr u) \<and> f u t1 = (t', Inr v))"
  by (auto simp: then_do_def split: prod.splits sum.splits)

lemma lib_Inr:
  "lib ft c r t = (t', Inr v) \<longleftrightarrow> ft (length t) = None \<and> r = Inr v \<and> t' = t @ [(c, None)]"
  by (cases r; cases "ft (length t)") (auto simp: lib_def)

lemma invoke_Inr:
  "invoke ft name t = (t', Inr v) \<longleftrightarrow> ft (length t) = None \<and> t' = t @ [(Method name, None)]"
  by (auto simp: invoke_def lib_Inr)

lemma ret_Inr: "ret v t = (t', Inr v') \<longleftrightarrow> t' = t \<and> v' = v"
  by (auto simp: ret_def)

lemma with_close_Inr:
  "with_close ft body t = (t', Inr v) \<longleftrightarrow>
     (\<exists>t1. body t = (t1, Inr v) \<and> ft (length t1) = None \<and> t' = t1 @ [(Method ''close'', None)])"
  by (cases "body t"; cases "snd (body t)")
     (auto simp: with_close_def lib_def split: option.splits)

lemma for_each_calls:
  assumes "for_each body xs t = (t', Inr u)"
    and "\<And>x t0 t1 u. x \<in> set xs \<Longrightarrow> body x t0 = (t1, Inr u) \<Longrightarrow> calls t1 = calls t0 @ cs x"
  shows "calls t' = calls t @ concat (map cs xs)"
  using assms
proof (induction xs arbitrary: t)
  case Nil
  then show ?case by (simp add: ret_Inr)
next
  case (Cons x xs)
  from Cons.prems(1) obtain t1 u1 where b: "body x t = (t1, Inr u1)"
    and r: "for_each body xs t1 = (t', Inr u)"
    by (auto simp: then_do_Inr)
  have "calls t1 = calls t @ cs x" using Cons.prems(2) [OF _ b] by simp
  moreover have "calls t' = calls t1 @ concat (map cs xs)"
    using r Cons.prems(2) by (intro Cons.IH) auto
  ultimately show ?case by simp
qed

lemmas run_Inr = then_do_Inr lib_Inr invoke_Inr ret_Inr with_close_Inr

lemma nb_setup_calls:
  "nb_setup ft cwd files t = (t', Inr (d, raw)) \<Longrightarrow>
   calls t' = calls t @ [Resolve, ReadFile (truediv (DATA_DIRECTORY cwd) ''Landusepolygon.shp''),
     Method ''plot''] \<and>
   d = DATA_DIRECTORY cwd \<and> files (truediv (DATA_DIRECTORY cwd) ''Landusepolygon.shp'') = Inr raw"
  by (auto simp: nb_setup_def run_Inr calls_def DATA_DIRECTORY_def)

lemma nb_inspect_calls:
  "nb_inspect ft raw t = (t', Inr u) \<Longrightarrow> calls t' = calls t @ [Method ''head'', Method ''columns'']"
  by (auto simp: nb_inspect_def run_Inr calls_def)

lemma nb_select_calls:
  "nb_select ft raw t = (t', Inr ds) \<Longrightarrow>
   calls t' = calls t @ [Method ''getitem'', Method ''rename'', Method ''head'', Method ''plot'',
     Method ''geometry'', Method ''head''] \<and> ds = prepared raw"
  by (auto simp: nb_select_def run_Inr calls_def getitem_cols_def rename_columns_def prepared_def
      split: list.splits)

lemma nb_one_area_calls:
  "nb_one_area ft area ds t = (t', Inr u) \<Longrightarrow>
   calls t' = calls t @ [Method ''at'', Method ''at'', Method ''area'', Print]"
  by (auto simp: nb_one_area_def run_Inr calls_def)

lemma nb_iterrows_loop_calls:
  assumes "nb_iterrows_loop ft area ds t = (t', Inr u)"
  shows "calls t' = calls t @ [Method ''getitem'', Method ''iterrows'']
           @ concat (replicate (length (head_rows ds)) [Method ''getitem'', Method ''area'', Print])"
proof -
  from assms have loop: "for_each (\<lambda>(index, row).
       then_do (lib ft (Method ''getitem'') (row_getitem (columns ds) row ''geometry'')) (\<lambda>g.
       then_do (lib ft (Method ''area'') (cell_area area g)) (\<lambda>polygon_area.
       lib ft Print (Inr ())))) (head_rows ds)
       (t @ [(Method ''getitem'', None), (Method ''iterrows'', None)]) = (t', Inr u)"
    by (auto simp: nb_iterrows_loop_def run_Inr)
  have "calls t' = calls (t @ [(Method ''getitem'', None), (Method ''iterrows'', None)])
          @ concat (map (\<lambda>x. [Method ''getitem'', Method ''area'', Print]) (head_rows ds))"
    using loop by (rule for_each_calls) (auto simp: run_Inr calls_def)
  then show ?thesis by (simp add: calls_def map_replicate_const)
qed

lemma nb_area_property_calls:
  "nb_area_property ft area ds t = (t', Inr u) \<Longrightarrow>
   calls t' = calls t @ [Method ''area'', Method ''getitem'']"
  by (auto simp: nb_area_property_def run_Inr calls_def)

lemma nb_property_loop_calls:
  assumes "nb_property_loop ft area ds t = (t', Inr u)"
  shows "calls t' = calls t @ [Method ''getitem'', Method ''iterrows'']
           @ concat (replicate (length (head_rows ds)) [Method ''area'', Method ''getitem'', Print])"
proof -
  from assms have loop: "for_each (\<lambda>(i, row).
       then_do (lib ft (Method ''area'') (frame_area area ds)) (\<lambda>s.
       then_do (lib ft (Method ''getitem'') (series_at s i)) (\<lambda>polygon_area.
       lib ft Print (Inr ())))) (head_rows ds)
       (t @ [(Method ''getitem'', None), (Method ''iterrows'', None)]) = (t', Inr u)"
    by (auto simp: nb_property_loop_def run_Inr)
  have "calls t' = calls (t @ [(Method ''getitem'', None), (Method ''iterrows'', None)])
          @ concat (map (\<lambda>x. [Method ''area'', Method ''getitem'', Print]) (head_rows ds))"
    using loop by (rule for_each_calls) (auto simp: run_Inr calls_def)
  then show ?thesis by (simp add: calls_def map_replicate_const)
qed

lemma nb_area_column_calls:
  "nb_area_column ft area ds t = (t', Inr ds') \<Longrightarrow>
   calls t' = calls t @ [Method ''area'', Method ''setitem''] \<and> with_area_column area ds = Inr ds'"
  by (auto simp: nb_area_column_def run_Inr calls_def with_area_column_def)

lemma nb_water_bodies_calls:
  "nb_water_bodies ft d ds t = (t', Inr u) \<Longrightarrow>
   calls t' = calls t @ [Method ''ID_CLASS'', Method ''eq'', Method ''getitem'', Method ''plot'',
     ToFile (truediv d ''water_bodies.shp'')]"
  by (auto simp: nb_water_bodies_def run_Inr calls_def)

lemma nb_groups_calls:
  assumes "nb_groups ft ds t = (t', Inr u)"
  shows "calls t' = calls t @ [Method ''getitem'', Method ''unique'', Method ''groupby'', Method ''groups'']
           @ replicate (length (remdups (class_names ds))) Print
           @ [Method ''get_group'', Method ''plot'']"
proof -
  from assms obtain gs t1 where gs: "groupby ds ''CLASS_NAME'' = Inr gs"
    and loop: "for_each (\<lambda>(key, grp). lib ft Print (Inr ())) gs
       (t @ [(Method ''getitem'', None), (Method ''unique'', None), (Method ''groupby'', None),
             (Method ''groups'', None)]) = (t1, Inr ())"
    and rest: "t' = t1 @ [(Method ''get_group'', None), (Method ''plot'', None)]"
    by (auto simp: nb_groups_def run_Inr)
  have "calls t1 = calls (t @ [(Method ''getitem'', None), (Method ''unique'', None),
            (Method ''groupby'', None), (Method ''groups'', None)])
          @ concat (map (\<lambda>x. [Print]) gs)"
    using loop by (rule for_each_calls) (auto simp: run_Inr calls_def)
  moreover have "length gs = length (remdups (class_names ds))"
    using groupby_class_names [OF gs] by simp
  ultimately show ?thesis by (simp add: calls_def rest map_replicate_const)
qed

lemma nb_fanout_calls:
  assumes "nb_fanout ft d ds t = (t', Inr u)"
  shows "calls t' = calls t @ [Method ''groupby'']
           @ map (\<lambda>key. ToFile (truediv d (lu_name key))) (sort (remdups (class_names ds)))"
proof -
  from assms obtain gs where gs: "groupby ds ''CLASS_NAME'' = Inr gs"
    and loop: "for_each (\<lambda>(key, grp). lib ft (ToFile (truediv d (lu_name key))) (Inr ())) gs
       (t @ [(Method ''groupby'', None)]) = (t', Inr u)"
    by (auto simp: nb_fanout_def run_Inr)
  have "calls t' = calls (t @ [(Method ''groupby'', None)])
          @ concat (map (\<lambda>x. [ToFile (truediv d (lu_name (fst x)))]) gs)"
    using loop by (rule for_each_calls) (auto simp: run_Inr calls_def)
  moreover have "map fst gs = sort (remdups (class_names ds))"
    using groupby_class_names [OF gs] by (simp add: comp_def)
  moreover have "concat (map (\<lambda>x. [ToFile (truediv d (lu_name (fst x)))]) gs)
      = map (\<lambda>key. ToFile (truediv d (lu_name key))) (map fst gs)"
    by (induction gs) auto
  ultimately show ?thesis by (simp add: calls_def)
qed

lemma nb_area_summary_calls:
  "nb_area_summary ft cwd ds t = (t', Inr u) \<Longrightarrow>
   calls t' = calls t @ [Method ''groupby'', Method ''area'', Method ''sum'',
     ToCsv (absolute cwd (parse_path ''data/area_by_LU_class.csv''))]"
  by (auto simp: nb_area_summary_def run_Inr calls_def split: if_splits)


lemma head_rows_prepared: "length (head_rows (prepared raw)) = length (head_rows raw)"
  by (simp add: head_rows_def prepared_def)

lemma class_names_prepared_area:
  assumes "with_area_column area (prepared raw) = Inr ds'"
  shows "class_names ds' = column_strings raw ''KATEGORI''"
proof -
  have "''geometry'' \<in> set (columns (prepared raw))" by (simp add: prepared_def)
  from with_area_column_eq [OF this, of area] assms
  show ?thesis
    by (auto simp: prepared_def class_names_def column_strings_def put_cell_def cell_at_def
        comp_def case_prod_unfold)
qed

lemma processing_notebook_calls:
  assumes "processing_notebook ft area cwd files t = (t', Inr u)"
  shows "\<exists>raw. files (truediv (DATA_DIRECTORY cwd) ''Landusepolygon.shp'') = Inr raw \<and>
           calls t' = calls t @ processing_calls cwd (length (head_rows raw))
                                  (sort (remdups (column_strings raw ''KATEGORI'')))"
proof -
  from assms obtain d raw t1 t2 t3 ds t4 t5 t6 t7 t8 ds' t9 t10 t11
    where s1: "nb_setup ft cwd files t = (t1, Inr (d, raw))"
      and s2: "nb_inspect ft raw t1 = (t2, Inr ())"
      and s3: "nb_select ft raw t2 = (t3, Inr ds)"
      and s4: "nb_one_area ft area ds t3 = (t4, Inr ())"
      and s5: "nb_iterrows_loop ft area ds t4 = (t5, Inr ())"
      and s6: "nb_area_property ft area ds t5 = (t6, Inr ())"
      and s7: "nb_property_loop ft area ds t6 = (t7, Inr ())"
      and s8: "nb_area_column ft area ds t7 = (t8, Inr ds')"
      and s9: "nb_water_bodies ft d ds' t8 = (t9, Inr ())"
      and s10: "nb_groups ft ds' t9 = (t10, Inr ())"
      and s11: "nb_fanout ft d ds' t10 = (t11, Inr ())"
      and s12: "nb_area_summary ft cwd ds' t11 = (t', Inr u)"
    by (auto simp: processing_notebook_def then_do_Inr)
  note c1 = nb_setup_calls [OF s1]
  note c3 = nb_select_calls [OF s3]
  have ds: "ds = prepared raw" using c3 by simp
  note c8 = nb_area_column_calls [OF s8]
  have keys: "class_names ds' = column_strings raw ''KATEGORI''"
    using c8 by (intro class_names_prepared_area [of area]) (simp add: ds)
  have n: "length (head_rows ds) = length (head_rows raw)"
    by (simp add: ds head_rows_prepared)
  have d: "d = DATA_DIRECTORY cwd" using c1 by simp
  have "calls t' = calls t @ processing_calls cwd (length (head_rows raw))
                                  (sort (remdups (column_strings raw ''KATEGORI'')))"
    unfolding processing_calls_def
    using c1 nb_inspect_calls [OF s2] c3 nb_one_area_calls [OF s4] nb_iterrows_loop_calls [OF s5]
      nb_area_property_calls [OF s6] nb_property_loop_calls [OF s7] c8
      nb_water_bodies_calls [OF s9] nb_groups_calls [OF s10] nb_fanout_calls [OF s11]
      nb_area_summary_calls [OF s12]
    by (simp add: keys n d head_rows_prepared)
  with c1 show ?thesis by blast
qed

lemma processing_calls_determined:
  assumes "processing_notebook ft1 area1 cwd files1 [] = (t1, Inr ())"
    and "processing_notebook ft2 area2 cwd files2 [] = (t2, Inr ())"
    and "files1 (truediv (DATA_DIRECTORY cwd) ''Landusepolygon.shp'') = Inr raw1"
    and "files2 (truediv (DATA_DIRECTORY cwd) ''Landusepolygon.shp'') = Inr raw2"
    and "length (head_rows raw1) = length (head_rows raw2)"
    and "set (column_strings raw1 ''KATEGORI'') = set (column_strings raw2 ''KATEGORI'')"
  shows "calls t1 = calls t2"
proof -
  have "sort (remdups (column_strings raw1 ''KATEGORI'')) = sort (remdups (column_strings raw2 ''KATEGORI''))"
    using assms(6) by (metis sorted_list_of_set_sort_remdups)
  moreover from processing_notebook_calls [OF assms(1)] assms(3)
  have "calls t1 = processing_calls cwd (length (head_rows raw1))
                      (sort (remdups (column_strings raw1 ''KATEGORI'')))"
    by (auto simp: calls_def)
  moreover from processing_notebook_calls [OF assms(2)] assms(4)
  have "calls t2 = processing_calls cwd (length (head_rows raw2))
                      (sort (remdups (column_strings raw2 ''KATEGORI'')))"
    by (auto simp: calls_def)
  ultimately show ?thesis using assms(5) by simp
qed

lemma swap_run_Inr:
  assumes "swap_run ft c t = (t', Inr v)"
  shows "swap_cell c = Inr v \<and> calls t' = calls t @ swap_calls (cell_has_z c)"
proof (cases c)
  case (GeomV g)
  with assms show ?thesis
    by (cases g)
       (auto simp: swap_run_def run_Inr swap_xy_def swap_calls_def calls_def split: if_splits)
qed (use assms in \<open>auto simp: swap_run_def run_Inr\<close>)

lemma apply_each_Inr:
  "apply_each (swap_run ft) s t = (t', Inr s') \<Longrightarrow>
   series_apply swap_cell s = Inr s' \<and>
   calls t' = calls t @ concat (map (\<lambda>(l, c). swap_calls (cell_has_z c)) s)"
proof (induction s arbitrary: t s')
  case Nil
  then show ?case by (simp add: ret_Inr)
next
  case (Cons lc s)
  obtain l c where lc: "lc = (l, c)" by (cases lc)
  from Cons.prems obtain t1 c' s1 where c': "swap_run ft c t = (t1, Inr c')"
    and s1: "apply_each (swap_run ft) s t1 = (t', Inr s1)" and s': "s' = (l, c') # s1"
    by (auto simp: lc run_Inr)
  from swap_run_Inr [OF c'] Cons.IH [OF s1] show ?case
    by (simp add: lc s')
qed

lemma wfs_cell_Inr:
  assumes "wfs_cell ft cwd files t = (t', Inr v)"
  shows "\<exists>data. files (absolute cwd (parse_path ''cykelpump_punkt.gml'')) = Inr data \<and>
           calls t' = calls t @ wfs_calls cwd (z_flags data)"
proof -
  from assms obtain data s t2 s' where
    data: "files (absolute cwd (parse_path ''cykelpump_punkt.gml'')) = Inr data"
    and s: "getitem_col data ''geometry'' = Inr s"
    and ap: "apply_each (swap_run ft) s
      (t @ [(Connect wfs_url, None), (GetFeature layer_name, None),
            (OpenWrite (absolute cwd (parse_path ''cykelpump_punkt.gml'')), None),
            (Method ''read'', None), (Method ''write'', None), (Method ''close'', None),
            (ReadFile (absolute cwd (parse_path ''cykelpump_punkt.gml'')), None),
            (Method ''set_crs'', None), (Method ''getitem'', None), (Method ''apply'', None)])
      = (t2, Inr s')"
    and t': "t' = t2 @ [(Method ''setitem'', None),
      (ToFile (truediv (DATA_DIRECTORY cwd) ''cykelpump_punkt.gpkg''), None)]"
    by (auto simp: wfs_cell_def run_Inr)
  have "map (\<lambda>(l, c). swap_calls (cell_has_z c)) s = map swap_calls (z_flags data)"
    using s by (auto simp: getitem_col_def z_flags_def split: if_splits)
  with apply_each_Inr [OF ap] t' data show ?thesis
    by (auto simp: wfs_calls_def calls_def)
qed

lemma vector_io_notebook_Inr:
  assumes "vector_io_notebook ft cwd files urls t = (t', Inr v)"
  shows "\<exists>data. files (absolute cwd (parse_path ''cykelpump_punkt.gml'')) = Inr data \<and>
           calls t' = calls t @ vector_io_calls cwd (z_flags data)"
proof -
  from assms have w: "wfs_cell ft cwd files
     (t @ [(Resolve, None), (Method ''supported_drivers'', None),
      (ReadFile (truediv (DATA_DIRECTORY cwd) ''UGA_adm1_2011.shp''), None),
      (Method ''plot'', None), (Method ''head'', None),
      (ReadUrl nuts_url, None), (Method ''head'', None),
      (ToFile (absolute cwd (parse_path ''nuts_1.gpkg'')), None), (Method ''rename'', None),
      (ToFile (absolute cwd (parse_path ''nuts_1.gpkg'')), None),
      (ToFile (truediv (DATA_DIRECTORY cwd) ''nuts_1.gpkg''), None),
      (ToFile (truediv (DATA_DIRECTORY cwd) ''nuts_1.gjson''), None)]) = (t', Inr v)"
    by (auto simp: vector_io_notebook_def run_Inr DATA_DIRECTORY_def)
  from wfs_cell_Inr [OF w] show ?thesis by (auto simp: vector_io_calls_def calls_def)
qed

lemma pathlib_notebook_Inr:
  "pathlib_notebook ft cwd files t = (t', Inr v) \<Longrightarrow> calls t' = calls t @ pathlib_calls cwd"
  by (auto simp: pathlib_notebook_def run_Inr calls_def pathlib_calls_def DATA_DIRECTORY_def
      NOTEBOOK_PATH_def)


lemma crs_notebook_Inr:
  "crs_notebook ft urls to_crs t = (t', Inr v) \<Longrightarrow> calls t' = calls t @ crs_calls"
  unfolding crs_notebook_def invoke_def
  by (simp add: then_do_Inr lib_Inr) (auto simp: calls_def crs_calls_def)


lemma swap_cell_Inr: "swap_cell c = Inr c' \<Longrightarrow> is_point c \<and> c' = exchanged c"
proof (cases c)
  case (GeomV g)
  assume "swap_cell c = Inr c'"
  with GeomV show ?thesis
    by (cases g) (auto simp: swap_xy_def)
qed auto

lemma series_apply_Inr:
  "series_apply swap_cell s = Inr s' \<Longrightarrow>
   list_all is_point (map snd s) \<and> s' = map (\<lambda>(l, c). (l, exchanged c)) s"
proof (induction s arbitrary: s')
  case Nil
  then show ?case by simp
next
  case (Cons lc s)
  obtain l c where lc: "lc = (l, c)" by (cases lc)
  from Cons.prems obtain c' s1 where c': "swap_cell c = Inr c'"
    and s1: "series_apply swap_cell s = Inr s1" and s': "s' = (l, c') # s1"
    by (cases "swap_cell c"; cases "series_apply swap_cell s") (auto simp: lc)
  from swap_cell_Inr [OF c'] Cons.IH [OF s1] show ?case by (simp add: lc s')
qed

text \<open>
  In a run of the WFS script to its end every geometry of the layer is a point, and
  the frame that the script writes is the layer with the exchanged points as its
  geometry column.
\<close>

lemma wfs_cell_exchanges:
  assumes "wfs_cell ft cwd files t = (t', Inr v)"
  shows "\<exists>data s. files (absolute cwd (parse_path ''cykelpump_punkt.gml'')) = Inr data \<and>
           getitem_col data ''geometry'' = Inr s \<and> list_all is_point (map snd s) \<and>
           setitem_col data ''geometry'' (map (\<lambda>(l, c). (l, exchanged c)) s) = Inr v"
proof -
  from assms obtain data s t1 t2 s' where
    data: "files (absolute cwd (parse_path ''cykelpump_punkt.gml'')) = Inr data"
    and s: "getitem_col data ''geometry'' = Inr s"
    and ap: "apply_each (swap_run ft) s t1 = (t2, Inr s')"
    and v: "setitem_col data ''geometry'' s' = Inr v"
    by (auto simp: wfs_cell_def run_Inr)
  from apply_each_Inr [OF ap] have "series_apply swap_cell s = Inr s'" by simp
  from series_apply_Inr [OF this] data s v show ?thesis by auto
qed

lemma ex_run_two:
  "snd (processing_notebook no_faults planar_area ex_cwd (\<lambda>p. Inr (ex_landuse ''Skog'')) []) = Inr ()"
  by code_simp

lemma ex_run_six:
  "snd (processing_notebook no_faults planar_area ex_cwd (\<lambda>p. Inr ex_landuse_six) []) = Inr ()"
  by code_simp

lemma ex_run_points:
  "snd (vector_io_notebook no_faults ex_cwd (\<lambda>p. Inr ex_points) (\<lambda>u. Inr ex_frame) []) =
     Inr \<lparr>columns = [''name'', ''geometry''],
          rows = [(0, [StrV ''pump 1'', GeomV (Point2 150000 6580000)]),
                  (1, [StrV ''pump 2'', GeomV (Point3 151000 6581000 12)])]\<rparr>"
  by code_simp

lemma ex_run_points_z:
  "snd (vector_io_notebook no_faults ex_cwd (\<lambda>p. Inr ex_points_z) (\<lambda>u. Inr ex_points) []) =
     Inr \<lparr>columns = [''geometry'', ''owner''],
          rows = [(0, [GeomV (Point2 2 1), NullV]),
                  (1, [GeomV (Point3 4 3 5), StrV ''city''])]\<rparr>"
  by code_simp

lemma ex_run_pathlib:
  "snd (pathlib_notebook no_faults ex_cwd (\<lambda>p. Inr ex_points) []) = Inr ex_points"
  "snd (pathlib_notebook no_faults ex_cwd (\<lambda>p. Inr ex_frame) []) = Inr ex_frame"
  by code_simp+

lemma ex_run_crs:
  "snd (crs_notebook no_faults (\<lambda>u. Inr ex_points) (\<lambda>d. Inr d) []) = Inr ()"
  "snd (crs_notebook no_faults (\<lambda>u. Inr ex_frame) (\<lambda>d. Inr ex_points) []) = Inr ()"
  by code_simp+

text \<open>
  C6, as the code has it. Every notebook issues its library calls in the order of its
  cells. The pathlib notebook and the reference system notebook issue the same calls
  whatever the data. The vector I/O notebook runs the swap lambda once for each feature
  of the layer, with one more coordinate read for a feature that has a third
  coordinate; the processing notebook runs its row loops once for each of the first
  five rows and its group loops once for each class name. So for any two inputs that
  agree in these respects and on which the notebook runs to its end, the notebook
  issues the same sequence of library calls.
\<close>

theorem calls_determined_by_shape:
  "(pathlib_notebook ft1 cwd files1 [] = (t1, Inr v1) \<and>
    pathlib_notebook ft2 cwd files2 [] = (t2, Inr v2) \<longrightarrow> calls t1 = calls t2) \<and>
   (crs_notebook ft1 urls1 to_crs1 [] = (t1, Inr u1) \<and>
    crs_notebook ft2 urls2 to_crs2 [] = (t2, Inr u2) \<longrightarrow> calls t1 = calls t2) \<and>
   (vector_io_notebook ft1 cwd files1 urls1 [] = (t1, Inr v1) \<and>
    vector_io_notebook ft2 cwd files2 urls2 [] = (t2, Inr v2) \<and>
    files1 (absolute cwd (parse_path ''cykelpump_punkt.gml'')) = Inr d1 \<and>
    files2 (absolute cwd (parse_path ''cykelpump_punkt.gml'')) = Inr d2 \<and>
    z_flags d1 = z_flags d2 \<longrightarrow> calls t1 = calls t2) \<and>
   (processing_notebook ft1 area1 cwd files1 [] = (t1, Inr ()) \<and>
    processing_notebook ft2 area2 cwd files2 [] = (t2, Inr ()) \<and>
    files1 (truediv (DATA_DIRECTORY cwd) ''Landusepolygon.shp'') = Inr raw1 \<and>
    files2 (truediv (DATA_DIRECTORY cwd) ''Landusepolygon.shp'') = Inr raw2 \<and>
    length (head_rows raw1) = length (head_rows raw2) \<and>
    set (column_strings raw1 ''KATEGORI'') = set (column_strings raw2 ''KATEGORI'') \<longrightarrow>
    calls t1 = calls t2)"
proof (intro conjI impI; elim conjE)
  assume "pathlib_notebook ft1 cwd files1 [] = (t1, Inr v1)"
    and "pathlib_notebook ft2 cwd files2 [] = (t2, Inr v2)"
  then show "calls t1 = calls t2"
    by (auto dest!: pathlib_notebook_Inr)
next
  assume "crs_notebook ft1 urls1 to_crs1 [] = (t1, Inr u1)"
    and "crs_notebook ft2 urls2 to_crs2 [] = (t2, Inr u2)"
  then show "calls t1 = calls t2"
    by (auto dest!: crs_notebook_Inr)
next
  assume "vector_io_notebook ft1 cwd files1 urls1 [] = (t1, Inr v1)"
    and "vector_io_notebook ft2 cwd files2 urls2 [] = (t2, Inr v2)"
    and "files1 (absolute cwd (parse_path ''cykelpump_punkt.gml'')) = Inr d1"
    and "files2 (absolute cwd (parse_path ''cykelpump_punkt.gml'')) = Inr d2"
    and "z_flags d1 = z_flags d2"
  then show "calls t1 = calls t2"
    by (auto dest!: vector_io_notebook_Inr)
next
  assume "processing_notebook ft1 area1 cwd files1 [] = (t1, Inr ())"
    and "processing_notebook ft2 area2 cwd files2 [] = (t2, Inr ())"
    and "files1 (truediv (DATA_DIRECTORY cwd) ''Landusepolygon.shp'') = Inr raw1"
    and "files2 (truediv (DATA_DIRECTORY cwd) ''Landusepolygon.shp'') = Inr raw2"
    and "length (head_rows raw1) = length (head_rows raw2)"
    and "set (column_strings raw1 ''KATEGORI'') = set (column_strings raw2 ''KATEGORI'')"
  then show "calls t1 = calls t2"
    by (rule processing_calls_determined)
qed

text \<open>
  Pairs of different inputs for each notebook: two frames for the pathlib and the
  reference system notebooks, two point layers whose second feature has a height, and
  two land use files of five and of six records with the classes \<open>Skog\<close> and
  \<open>Vattenyta\<close>.
\<close>

theorem calls_determined_by_shape_witness:
  "calls (fst (pathlib_notebook no_faults ex_cwd (\<lambda>p. Inr ex_points) [])) =
   calls (fst (pathlib_notebook no_faults ex_cwd (\<lambda>p. Inr ex_frame) [])) \<and>
   calls (fst (crs_notebook no_faults (\<lambda>u. Inr ex_points) (\<lambda>d. Inr d) [])) =
   calls (fst (crs_notebook no_faults (\<lambda>u. Inr ex_frame) (\<lambda>d. Inr ex_points) [])) \<and>
   z_flags ex_points = z_flags ex_points_z \<and>
   calls (fst (vector_io_notebook no_faults ex_cwd (\<lambda>p. Inr ex_points) (\<lambda>u. Inr ex_frame) [])) =
   calls (fst (vector_io_notebook no_faults ex_cwd (\<lambda>p. Inr ex_points_z) (\<lambda>u. Inr ex_points) [])) \<and>
   length (head_rows (ex_landuse ''Skog'')) = length (head_rows ex_landuse_six) \<and>
   set (column_strings (ex_landuse ''Skog'') ''KATEGORI'') =
     set (column_strings ex_landuse_six ''KATEGORI'') \<and>
   calls (fst (processing_notebook no_faults planar_area ex_cwd (\<lambda>p. Inr (ex_landuse ''Skog'')) [])) =
   calls (fst (processing_notebook no_faults planar_area ex_cwd (\<lambda>p. Inr ex_landuse_six) []))"
proof -
  let ?p1 = "pathlib_notebook no_faults ex_cwd (\<lambda>p. Inr ex_points) []"
  let ?p2 = "pathlib_notebook no_faults ex_cwd (\<lambda>p. Inr ex_frame) []"
  let ?c1 = "crs_notebook no_faults (\<lambda>u. Inr ex_points) (\<lambda>d. Inr d) []"
  let ?c2 = "crs_notebook no_faults (\<lambda>u. Inr ex_frame) (\<lambda>d. Inr ex_points) []"
  let ?v1 = "vector_io_notebook no_faults ex_cwd (\<lambda>p. Inr ex_points) (\<lambda>u. Inr ex_frame) []"
  let ?v2 = "vector_io_notebook no_faults ex_cwd (\<lambda>p. Inr ex_points_z) (\<lambda>u. Inr ex_points) []"
  let ?r1 = "processing_notebook no_faults planar_area ex_cwd (\<lambda>p. Inr (ex_landuse ''Skog'')) []"
  let ?r2 = "processing_notebook no_faults planar_area ex_cwd (\<lambda>p. Inr ex_landuse_six) []"
  have p: "?p1 = (fst ?p1, Inr ex_points)" "?p2 = (fst ?p2, Inr ex_frame)"
    using ex_run_pathlib by (simp_all add: prod_eq_iff)
  have c: "?c1 = (fst ?c1, Inr ())" "?c2 = (fst ?c2, Inr ())"
    using ex_run_crs by (simp_all add: prod_eq_iff)
  have v: "?v1 = (fst ?v1, Inr (projr (snd ?v1)))" "?v2 = (fst ?v2, Inr (projr (snd ?v2)))"
    using ex_run_points ex_run_points_z by (simp_all add: prod_eq_iff)
  have r: "?r1 = (fst ?r1, Inr ())" "?r2 = (fst ?r2, Inr ())"
    using ex_run_two ex_run_six by (simp_all add: prod_eq_iff)
  have z: "z_flags ex_points = z_flags ex_points_z"
    by (simp add: z_flags_def ex_points_def ex_points_z_def read_frame_def cell_at_def)
  have h5: "length (head_rows (ex_landuse ''Skog'')) = length (head_rows ex_landuse_six)"
    by (simp add: head_rows_def ex_landuse_def ex_landuse_six_def read_frame_def)
  have h6: "set (column_strings (ex_landuse ''Skog'') ''KATEGORI'') =
            set (column_strings ex_landuse_six ''KATEGORI'')"
    by (simp add: column_strings_def ex_landuse_def ex_landuse_six_def read_frame_def cell_at_def)
       auto
  note T = calls_determined_by_shape
  have "calls (fst ?p1) = calls (fst ?p2)"
    using T [THEN conjunct1, of no_faults ex_cwd "\<lambda>p. Inr ex_points" "fst ?p1" ex_points
        no_faults "\<lambda>p. Inr ex_frame" "fst ?p2" ex_frame] p
    by simp
  moreover have "calls (fst ?c1) = calls (fst ?c2)"
    using T [THEN conjunct2, THEN conjunct1, of no_faults "\<lambda>u. Inr ex_points" "\<lambda>d. Inr d" "fst ?c1" "()"
        no_faults "\<lambda>u. Inr ex_frame" "\<lambda>d. Inr ex_points" "fst ?c2" "()"] c
    by simp
  moreover have "calls (fst ?v1) = calls (fst ?v2)"
    using T [THEN conjunct2, THEN conjunct2, THEN conjunct1,
        of no_faults ex_cwd "\<lambda>p. Inr ex_points" "\<lambda>u. Inr ex_frame" "fst ?v1" "projr (snd ?v1)"
        no_faults "\<lambda>p. Inr ex_points_z" "\<lambda>u. Inr ex_points" "fst ?v2" "projr (snd ?v2)"
        ex_points ex_points_z] v z
    by simp
  moreover have "calls (fst ?r1) = calls (fst ?r2)"
    using T [THEN conjunct2, THEN conjunct2, THEN conjunct2,
        of no_faults planar_area ex_cwd "\<lambda>p. Inr (ex_landuse ''Skog'')" "fst ?r1"
        no_faults planar_area "\<lambda>p. Inr ex_landuse_six" "fst ?r2"
        "ex_landuse ''Skog''" ex_landuse_six] r h5 h6
    by simp
  ultimately show ?thesis using z h5 h6 by simp
qed

text \<open>
  The claim as stated, for any two input data sets, fails on two land use files of five
  records each that differ in the class of one record: with two classes the notebook
  prints one more line in the group loop and writes one more file in the fan-out loop
  than with one class.
\<close>

theorem calls_determined_by_shape_counterexample:
  "snd (processing_notebook no_faults planar_area ex_cwd (\<lambda>p. Inr (ex_landuse ''Skog'')) []) = Inr () \<and>
   snd (processing_notebook no_faults planar_area ex_cwd (\<lambda>p. Inr (ex_landuse ''Vattenyta'')) []) = Inr () \<and>
   length (calls (fst (processing_notebook no_faults planar_area ex_cwd
      (\<lambda>p. Inr (ex_landuse ''Skog'')) []))) = 73 \<and>
   length (calls (fst (processing_notebook no_faults planar_area ex_cwd
      (\<lambda>p. Inr (ex_landuse ''Vattenyta'')) []))) = 71 \<and>
   calls (fst (processing_notebook no_faults planar_area ex_cwd (\<lambda>p. Inr (ex_landuse ''Skog'')) [])) \<noteq>
   calls (fst (processing_notebook no_faults planar_area ex_cwd (\<lambda>p. Inr (ex_landuse ''Vattenyta'')) []))"
  by code_simp

subsection \<open>Errors end the run\<close>

lemma quiet_append: "quiet (xs @ ys) \<longleftrightarrow> quiet xs \<and> quiet ys"
  by (simp add: quiet_def)

lemma faithful_lib: "faithful ft (lib ft c r)"
proof -
  have "ends_at_first_error (lib ft c r t) \<and> agrees ft (fst (lib ft c r t)) \<and>
        length t \<le> length (fst (lib ft c r t))"
    if q: "quiet t" and a: "agrees ft t" for t
  proof (cases "ft (length t)")
    case None
    then show ?thesis using q a
      by (cases r)
         (auto simp: lib_def ends_at_first_error_def agrees_def quiet_def nth_append less_Suc_eq)
  next
    case (Some e)
    then show ?thesis using q a
      by (auto simp: lib_def ends_at_first_error_def agrees_def quiet_def nth_append less_Suc_eq)
  qed
  then show ?thesis by (simp add: faithful_def)
qed

lemma faithful_invoke: "faithful ft (invoke ft name)"
  by (simp add: invoke_def faithful_lib)

lemma faithful_ret: "faithful ft (ret v)"
  by (simp add: faithful_def ret_def ends_at_first_error_def quiet_def list_all_iff)
     (meson in_set_butlastD)

lemma faithful_then_do:
  assumes "faithful ft m" and "\<And>v. faithful ft (f v)"
  shows "faithful ft (then_do m f)"
proof -
  have "ends_at_first_error (then_do m f t) \<and> agrees ft (fst (then_do m f t)) \<and>
        length t \<le> length (fst (then_do m f t))"
    if q: "quiet t" and a: "agrees ft t" for t
  proof -
    obtain t1 r where m: "m t = (t1, r)" by (cases "m t")
    from assms(1) q a m have m1: "ends_at_first_error (t1, r)" "agrees ft t1" "length t \<le> length t1"
      by (auto simp: faithful_def)
    show ?thesis
    proof (cases r)
      case (Inl e)
      with m m1 show ?thesis by (simp add: then_do_def ends_at_first_error_def)
    next
      case (Inr v)
      with m1 have "quiet t1" by (simp add: ends_at_first_error_def)
      with assms(2) [of v] m1(2) have "ends_at_first_error (f v t1)" "agrees ft (fst (f v t1))"
        "length t1 \<le> length (fst (f v t1))"
        by (auto simp: faithful_def)
      with Inr m m1(3) show ?thesis by (simp add: then_do_def)
    qed
  qed
  then show ?thesis by (simp add: faithful_def)
qed

lemma faithful_for_each:
  assumes "\<And>x. faithful ft (body x)"
  shows "faithful ft (for_each body xs)"
  by (induction xs) (simp_all add: faithful_ret faithful_then_do assms)

lemma faithful_case_prod: "(\<And>a b. faithful ft (f a b)) \<Longrightarrow> faithful ft (case_prod f x)"
  by (cases x) simp

lemma faithful_if: "faithful ft a \<Longrightarrow> faithful ft b \<Longrightarrow> faithful ft (if c then a else b)"
  by simp

lemmas faithful_intros = faithful_then_do faithful_lib faithful_invoke faithful_ret
  faithful_for_each faithful_case_prod faithful_if

lemma faithful_swap_run: "faithful ft (swap_run ft c)"
  unfolding swap_run_def by (cases c; simp; intro faithful_intros)

lemma faithful_apply_each:
  assumes "\<And>c. faithful ft (f c)"
  shows "faithful ft (apply_each f s)"
  by (induction s) (auto intro!: faithful_intros assms)

lemma faithful_propagates:
  assumes "faithful ft m"
  shows "propagates ft (m [])"
proof -
  obtain t r where m: "m [] = (t, r)" by (cases "m []")
  from assms have e: "ends_at_first_error (t, r)" and a: "agrees ft t"
    by (auto simp: faithful_def quiet_def agrees_def m dest!: spec [of _ "[]"])
  have "failure_is_result ft (t, r) n" for n
  proof (cases "ft n")
    case None
    then show ?thesis by simp
  next
    case (Some err)
    show ?thesis
    proof (cases "n < length t")
      case False
      with Some show ?thesis by simp
    next
      case True
      with a Some have ev: "snd (t ! n) = Some err" by (auto simp: agrees_def)
      have last: "Suc n = length t"
      proof (rule ccontr)
        assume "Suc n \<noteq> length t"
        with True have "n < length (butlast t)" by simp
        then have "butlast t ! n \<in> set (butlast t)" by (rule nth_mem)
        moreover have "butlast t ! n = t ! n" using \<open>n < length (butlast t)\<close> by (simp add: nth_butlast)
        ultimately have "snd (t ! n) = None"
          using e by (auto simp: ends_at_first_error_def quiet_def list_all_iff)
        with ev show False by simp
      qed
      then have tn: "t \<noteq> []" by auto
      then have "last t = t ! (length t - 1)" by (rule last_conv_nth)
      with last have ln: "last t = t ! n" by (metis diff_Suc_1)
      have "r = Inl err"
      proof (cases r)
        case (Inl e')
        with e tn ln ev show ?thesis by (simp add: ends_at_first_error_def)
      next
        case (Inr v)
        with e have "quiet t" by (simp add: ends_at_first_error_def)
        with True have "snd (t ! n) = None" by (auto simp: quiet_def list_all_iff)
        with ev show ?thesis by simp
      qed
      with last Some show ?thesis by simp
    qed
  qed
  with e show ?thesis by (simp add: propagates_def m)
qed

lemma faithful_pathlib: "faithful ft (pathlib_notebook ft cwd files)"
  unfolding pathlib_notebook_def by (intro faithful_intros)

lemma faithful_crs: "faithful ft (crs_notebook ft urls to_crs)"
  unfolding crs_notebook_def by (intro faithful_intros)

lemma faithful_processing: "faithful ft (processing_notebook ft area cwd files)"
  unfolding processing_notebook_def nb_setup_def nb_inspect_def nb_select_def nb_one_area_def
    nb_iterrows_loop_def nb_area_property_def nb_property_loop_def nb_area_column_def
    nb_water_bodies_def nb_groups_def nb_fanout_def nb_area_summary_def
  by (intro faithful_intros)

subsection \<open>Counting calls\<close>

lemma then_do_lib:
  "then_do (lib ft c r) f t =
     (case ft (length t) of
        Some e \<Rightarrow> (t @ [(c, Some e)], Inl e)
      | None \<Rightarrow> (case r of Inl e \<Rightarrow> (t @ [(c, Some e)], Inl e) | Inr v \<Rightarrow> f v (t @ [(c, None)])))"
  by (cases r; cases "ft (length t)") (auto simp: then_do_def lib_def)

lemma extends_lib: "extends (lib ft c r)"
  by (simp add: extends_def lib_def Let_def)

lemma extends_invoke: "extends (invoke ft name)"
  by (simp add: invoke_def extends_lib)

lemma extends_ret: "extends (ret v)"
  by (simp add: extends_def ret_def)

lemma extends_then_do:
  assumes "extends m" and "\<And>v. extends (f v)"
  shows "extends (then_do m f)"
proof -
  have "\<exists>new. fst (then_do m f t) = t @ new" for t
  proof -
    obtain t1 r where m: "m t = (t1, r)" by (cases "m t")
    from assms(1) m obtain n1 where t1: "t1 = t @ n1" by (auto simp: extends_def dest!: spec [of _ t])
    show ?thesis
    proof (cases r)
      case (Inl e)
      with m t1 show ?thesis by (simp add: then_do_def)
    next
      case (Inr v)
      from assms(2) [of v] obtain n2 where "fst (f v t1) = t1 @ n2"
        by (auto simp: extends_def dest!: spec [of _ t1])
      with Inr m t1 show ?thesis by (simp add: then_do_def)
    qed
  qed
  then show ?thesis by (simp add: extends_def)
qed

lemma extends_if: "extends a \<Longrightarrow> extends b \<Longrightarrow> extends (if c then a else b)"
  by simp

lemma extends_swap_run: "extends (swap_run ft c)"
  unfolding swap_run_def
  by (cases c; simp; intro extends_then_do extends_lib extends_if)

lemma extends_apply_each:
  assumes "\<And>c. extends (f c)"
  shows "extends (apply_each f s)"
  by (induction s) (auto intro!: extends_then_do extends_ret assms)

lemmas extends_intros = extends_then_do extends_lib extends_invoke extends_ret
  extends_apply_each extends_swap_run

lemma at_most_lib_same: "at_most c 1 (lib ft c r)"
  by (simp add: at_most_def lib_def Let_def calls_def)

lemma at_most_lib_other: "c' \<noteq> c \<Longrightarrow> at_most c 0 (lib ft c' r)"
  by (simp add: at_most_def lib_def Let_def calls_def)

lemma at_most_invoke: "c \<noteq> Method name \<Longrightarrow> at_most c 0 (invoke ft name)"
  by (simp add: invoke_def at_most_lib_other)

lemma at_most_ret: "at_most c 0 (ret v)"
  by (simp add: at_most_def ret_def)

lemma at_most_then_do:
  assumes "at_most c j m" and "\<And>v. at_most c k (f v)"
  shows "at_most c (j + k) (then_do m f)"
proof -
  have "count_list (calls (fst (then_do m f t))) c \<le> count_list (calls t) c + (j + k)" for t
  proof -
    obtain t1 r where m: "m t = (t1, r)" by (cases "m t")
    from assms(1) m have t1: "count_list (calls t1) c \<le> count_list (calls t) c + j"
      by (auto simp: at_most_def dest!: spec [of _ t])
    show ?thesis
    proof (cases r)
      case (Inl e)
      with m t1 show ?thesis by (simp add: then_do_def)
    next
      case (Inr v)
      from assms(2) [of v] have "count_list (calls (fst (f v t1))) c \<le> count_list (calls t1) c + k"
        by (auto simp: at_most_def)
      with Inr m t1 show ?thesis by (simp add: then_do_def)
    qed
  qed
  then show ?thesis by (simp add: at_most_def)
qed

lemma at_most_skip:
  "at_most c 0 m \<Longrightarrow> (\<And>v. at_most c k (f v)) \<Longrightarrow> at_most c k (then_do m f)"
  using at_most_then_do [of c 0 m k f] by simp

lemma at_most_hit:
  "at_most c 1 m \<Longrightarrow> (\<And>v. at_most c 0 (f v)) \<Longrightarrow> at_most c 1 (then_do m f)"
  using at_most_then_do [of c 1 m 0 f] by simp

lemma at_most_if: "at_most c k a \<Longrightarrow> at_most c k b \<Longrightarrow> at_most c k (if d then a else b)"
  by simp

lemma at_most_swap_run:
  assumes "\<And>name. Method name \<noteq> c"
  shows "at_most c 0 (swap_run ft v)"
  unfolding swap_run_def
  by (cases v; simp; intro at_most_skip at_most_if at_most_lib_other assms)

lemma at_most_apply_each:
  assumes "\<And>v. at_most c 0 (f v)"
  shows "at_most c 0 (apply_each f s)"
  by (induction s) (auto intro!: at_most_skip at_most_ret assms)

lemmas at_most_zero = at_most_skip at_most_lib_other at_most_invoke at_most_ret
  at_most_apply_each at_most_swap_run


subsection \<open>The with block\<close>

lemma unwinds_None: "unwinds t None \<longleftrightarrow> quiet t"
proof (induction t)
  case Nil
  then show ?case by (simp add: quiet_def)
next
  case (Cons ev t)
  obtain c x where ev: "ev = (c, x)" by (cases ev)
  show ?case
  proof (cases x)
    case None
    with Cons ev show ?thesis by (simp add: quiet_def)
  next
    case (Some e)
    with ev show ?thesis by (auto simp: quiet_def split: list.splits)
  qed
qed

lemma unwinds_quiet_append: "quiet t \<Longrightarrow> unwinds (t @ s) out = unwinds s out"
proof (induction t)
  case Nil
  then show ?case by simp
next
  case (Cons ev t)
  obtain c x where ev: "ev = (c, x)" by (cases ev)
  with Cons show ?case by (simp add: quiet_def)
qed

lemma closing_lib:
  assumes "\<not> in_with_block c"
  shows "closing ft (lib ft c r)"
proof -
  have "\<exists>new. fst (lib ft c r t) = t @ new \<and> unwinds new (raised (snd (lib ft c r t))) \<and>
          agrees ft (t @ new)"
    if a: "agrees ft t" for t
  proof (cases "ft (length t)")
    case None
    then show ?thesis using a assms
      by (cases r) (auto simp: lib_def agrees_def nth_append less_Suc_eq)
  next
    case (Some e)
    then show ?thesis using a assms
      by (auto simp: lib_def agrees_def nth_append less_Suc_eq)
  qed
  then show ?thesis by (simp add: closing_def)
qed

lemma closing_invoke:
  "name \<noteq> ''read'' \<Longrightarrow> name \<noteq> ''write'' \<Longrightarrow> closing ft (invoke ft name)"
  by (simp add: invoke_def closing_lib in_with_block_def)

lemma closing_ret: "closing ft (ret v)"
  by (simp add: closing_def ret_def)

lemma closing_then_do:
  assumes "closing ft m" and "\<And>v. closing ft (f v)"
  shows "closing ft (then_do m f)"
proof -
  have "\<exists>new. fst (then_do m f t) = t @ new \<and> unwinds new (raised (snd (then_do m f t))) \<and>
          agrees ft (t @ new)"
    if q: "quiet t" and a: "agrees ft t" for t
  proof -
    obtain t1 r where m: "m t = (t1, r)" by (cases "m t")
    from assms(1) q a m obtain n1 where n1: "t1 = t @ n1" "unwinds n1 (raised r)" "agrees ft (t @ n1)"
      by (auto simp: closing_def dest!: spec [of _ t])
    show ?thesis
    proof (cases r)
      case (Inl e)
      with m n1 show ?thesis by (simp add: then_do_def)
    next
      case (Inr v)
      with n1 have qn: "quiet n1" by (simp add: unwinds_None)
      with q have "quiet (t @ n1)" by (simp add: quiet_append)
      with assms(2) [of v] n1(3) obtain n2 where n2: "fst (f v (t @ n1)) = (t @ n1) @ n2"
        "unwinds n2 (raised (snd (f v (t @ n1))))" "agrees ft ((t @ n1) @ n2)"
        by (auto simp: closing_def dest!: spec [of _ "t @ n1"])
      have "then_do m f t = f v (t @ n1)" using m Inr n1 by (simp add: then_do_def)
      with n2 qn show ?thesis
        by (intro exI [of _ "n1 @ n2"]) (simp add: unwinds_quiet_append)
    qed
  qed
  then show ?thesis by (simp add: closing_def)
qed

lemma closing_if: "closing ft a \<Longrightarrow> closing ft b \<Longrightarrow> closing ft (if c then a else b)"
  by simp

lemma closing_swap_run: "closing ft (swap_run ft c)"
  unfolding swap_run_def
  by (cases c; simp; intro closing_then_do closing_lib closing_if; simp add: in_with_block_def)

lemma closing_apply_each:
  assumes "\<And>c. closing ft (f c)"
  shows "closing ft (apply_each f s)"
  by (induction s) (auto intro!: closing_then_do closing_ret assms)

lemma closing_with_block:
  "closing ft (with_close ft (then_do (invoke ft ''read'') (\<lambda>bytes. invoke ft ''write'')))"
proof -
  let ?m = "with_close ft (then_do (invoke ft ''read'') (\<lambda>bytes. invoke ft ''write''))"
  have "\<exists>new. fst (?m t) = t @ new \<and> unwinds new (raised (snd (?m t))) \<and> agrees ft (t @ new)"
    if a: "agrees ft t" for t
    using a
    by (auto simp: with_close_def then_do_def invoke_def lib_def in_with_block_def agrees_def
        nth_append less_Suc_eq split: option.splits)
  then show ?thesis by (simp add: closing_def)
qed

lemma closing_wfs_cell: "closing ft (wfs_cell ft cwd files)"
  unfolding wfs_cell_def
  by (intro closing_then_do closing_with_block closing_lib closing_invoke closing_ret
      closing_apply_each closing_swap_run; simp add: in_with_block_def)

lemma closing_vector_io: "closing ft (vector_io_notebook ft cwd files urls)"
  unfolding vector_io_notebook_def
  by (intro closing_then_do closing_wfs_cell closing_lib closing_invoke;
      simp add: in_with_block_def)

lemma closing_run:
  assumes "closing ft m"
  shows "closes_and_propagates ft (m [])"
  using assms
  by (cases "m []")
     (auto simp: closing_def closes_and_propagates_def quiet_def agrees_def dest!: spec [of _ "[]"])

subsection \<open>The fetch\<close>

lemma extends_with_close:
  assumes "extends body"
  shows "extends (with_close ft body)"
proof -
  have "\<exists>new. fst (with_close ft body t) = t @ new" for t
  proof -
    obtain t1 r where b: "body t = (t1, r)" by (cases "body t")
    from assms b obtain n1 where "t1 = t @ n1" by (auto simp: extends_def dest!: spec [of _ t])
    with b show ?thesis
      by (auto simp: with_close_def lib_def split: option.splits)
  qed
  then show ?thesis by (simp add: extends_def)
qed

lemma at_most_with_close:
  assumes "c \<noteq> Method ''close''" and "at_most c k body"
  shows "at_most c k (with_close ft body)"
proof -
  have "count_list (calls (fst (with_close ft body t))) c \<le> count_list (calls t) c + k" for t
  proof -
    obtain t1 r where b: "body t = (t1, r)" by (cases "body t")
    from assms(2) b have "count_list (calls t1) c \<le> count_list (calls t) c + k"
      by (auto simp: at_most_def dest!: spec [of _ t])
    with b assms(1) show ?thesis
      by (auto simp: with_close_def lib_def calls_def split: option.splits)
  qed
  then show ?thesis by (simp add: at_most_def)
qed

lemma wfs_cell_fetch_at_most: "at_most (GetFeature layer_name) 1 (wfs_cell ft cwd files)"
  unfolding wfs_cell_def
  apply (rule at_most_skip)
   apply (simp add: at_most_lib_other)
  apply (rule at_most_hit)
   apply (rule at_most_lib_same)
  apply (intro at_most_zero at_most_with_close; simp)
  done

lemma wfs_cell_connect_at_most: "at_most (Connect wfs_url) 1 (wfs_cell ft cwd files)"
  unfolding wfs_cell_def
  apply (rule at_most_hit)
   apply (rule at_most_lib_same)
  apply (intro at_most_zero at_most_with_close; simp)
  done

lemma first_call_recorded:
  assumes "\<And>v. extends (f v)"
  shows "\<exists>out new. fst (then_do (lib ft c r) f t) = t @ (c, out) # new"
proof (cases "ft (length t)")
  case (Some e)
  then show ?thesis by (simp add: then_do_lib)
next
  case None
  show ?thesis
  proof (cases r)
    case (Inl e)
    with None show ?thesis by (simp add: then_do_lib)
  next
    case (Inr v)
    from assms [of v] have "\<exists>new. fst (f v (t @ [(c, None)])) = (t @ [(c, None)]) @ new"
      unfolding extends_def by blast
    with None Inr show ?thesis by (auto simp: then_do_lib)
  qed
qed

lemma second_call_recorded:
  assumes "ft (length t) = None" and "\<And>v w. extends (g v w)"
  shows "\<exists>out new. fst (then_do (lib ft c (Inr v)) (\<lambda>x. then_do (lib ft c2 (r2 x)) (g x)) t) =
           t @ (c, None) # (c2, out) # new"
proof -
  have "\<exists>out new. fst (then_do (lib ft c2 (r2 v)) (g v) (t @ [(c, None)])) =
          (t @ [(c, None)]) @ (c2, out) # new"
    using assms(2) by (intro first_call_recorded)
  then show ?thesis using assms(1) by (simp add: then_do_lib)
qed

text \<open>
  The WFS script begins with the creation of the service object; when that fails the
  run is over, and otherwise the fetch is the next call.
\<close>

lemma wfs_cell_trace:
  "\<exists>x rest. fst (wfs_cell ft cwd files t) = t @ (Connect wfs_url, x) # rest \<and>
     (case x of
        Some e \<Rightarrow> rest = []
      | None \<Rightarrow> (\<exists>y rest'. rest = (GetFeature layer_name, y) # rest'))"
proof (cases "ft (length t)")
  case (Some e)
  then show ?thesis by (simp add: wfs_cell_def then_do_lib)
next
  case None
  have "\<exists>out new. fst (wfs_cell ft cwd files t) =
          t @ (Connect wfs_url, None) # (GetFeature layer_name, out) # new"
    unfolding wfs_cell_def using None
    by (intro second_call_recorded extends_intros extends_with_close)
  then show ?thesis by auto
qed

lemma at_most_new:
  assumes "at_most c k m" and "fst (m t) = t @ new"
  shows "count_list (calls new) c \<le> k"
proof -
  from assms(1) have "count_list (calls (fst (m t))) c \<le> count_list (calls t) c + k"
    by (simp add: at_most_def)
  with assms(2) show ?thesis by (simp add: calls_def)
qed

lemma fetching_wfs_cell: "fetching (wfs_cell ft cwd files)"
proof -
  have "\<exists>new. fst (wfs_cell ft cwd files t) = t @ new \<and>
          count_list (calls new) (Connect wfs_url) \<le> 1 \<and>
          count_list (calls new) (GetFeature layer_name) =
            (if (Connect wfs_url, None) \<in> set new then 1 else 0)" for t
  proof -
    from wfs_cell_trace [of ft cwd files t] obtain x rest
      where tr: "fst (wfs_cell ft cwd files t) = t @ (Connect wfs_url, x) # rest"
        and sh: "case x of Some e \<Rightarrow> rest = []
                 | None \<Rightarrow> (\<exists>y rest'. rest = (GetFeature layer_name, y) # rest')"
      by blast
    let ?new = "(Connect wfs_url, x) # rest"
    have c: "count_list (calls ?new) (Connect wfs_url) \<le> 1"
      using wfs_cell_connect_at_most tr by (rule at_most_new)
    have g: "count_list (calls ?new) (GetFeature layer_name) \<le> 1"
      using wfs_cell_fetch_at_most tr by (rule at_most_new)
    have "count_list (calls ?new) (GetFeature layer_name) =
            (if (Connect wfs_url, None) \<in> set ?new then 1 else 0)"
    proof (cases x)
      case (Some e)
      with sh show ?thesis by (simp add: calls_def)
    next
      case None
      with sh obtain y rest' where "rest = (GetFeature layer_name, y) # rest'" by auto
      with g None show ?thesis by (simp add: calls_def)
    qed
    with tr c show ?thesis by blast
  qed
  then show ?thesis by (simp add: fetching_def)
qed

lemma fetching_skip:
  assumes "c \<noteq> Connect wfs_url" and "c \<noteq> GetFeature layer_name" and "\<And>v. fetching (f v)"
  shows "fetching (then_do (lib ft c r) f)"
proof -
  have "\<exists>new. fst (then_do (lib ft c r) f t) = t @ new \<and>
          count_list (calls new) (Connect wfs_url) \<le> 1 \<and>
          count_list (calls new) (GetFeature layer_name) =
            (if (Connect wfs_url, None) \<in> set new then 1 else 0)" for t
  proof (cases "ft (length t) = None \<and> (\<exists>v. r = Inr v)")
    case False
    then have "\<exists>e. then_do (lib ft c r) f t = (t @ [(c, Some e)], Inl e)"
      by (cases r; cases "ft (length t)") (auto simp: then_do_lib)
    then show ?thesis using assms(1,2) by (auto simp: calls_def)
  next
    case True
    then obtain v where v: "r = Inr v" and n: "ft (length t) = None" by auto
    from assms(3) [of v] obtain new
      where new: "fst (f v (t @ [(c, None)])) = (t @ [(c, None)]) @ new"
        "count_list (calls new) (Connect wfs_url) \<le> 1"
        "count_list (calls new) (GetFeature layer_name) =
           (if (Connect wfs_url, None) \<in> set new then 1 else 0)"
      unfolding fetching_def by blast
    have "then_do (lib ft c r) f t = f v (t @ [(c, None)])"
      using v n by (simp add: then_do_lib)
    with new assms(1,2) show ?thesis
      by (intro exI [of _ "(c, None) # new"]) (simp add: calls_def)
  qed
  then show ?thesis by (simp add: fetching_def)
qed

lemma fetching_vector_io: "fetching (vector_io_notebook ft cwd files urls)"
  unfolding vector_io_notebook_def invoke_def
  by (intro fetching_skip fetching_wfs_cell; simp)

lemma fetched_once_run:
  assumes "fetching m" and "closing ft m"
    and "\<And>t v. m [] = (t, Inr v) \<Longrightarrow> Connect wfs_url \<in> set (calls t)"
  shows "fetched_once (m [])"
proof -
  obtain t r where m: "m [] = (t, r)" by (cases "m []")
  from assms(1) m have c: "count_list (calls t) (Connect wfs_url) \<le> 1"
    and g: "count_list (calls t) (GetFeature layer_name) =
              (if (Connect wfs_url, None) \<in> set t then 1 else 0)"
    by (auto simp: fetching_def dest!: spec [of _ "[]"])
  have "count_list (calls t) (Connect wfs_url) = 1 \<and>
        count_list (calls t) (GetFeature layer_name) = 1" if "raised r = None"
  proof -
    from that obtain v where v: "r = Inr v" by (cases r) auto
    from closing_run [OF assms(2)] m that have q: "quiet t"
      by (simp add: closes_and_propagates_def unwinds_None)
    from assms(3) m v have in_calls: "Connect wfs_url \<in> set (calls t)" by simp
    then obtain x where "(Connect wfs_url, x) \<in> set t" by (auto simp: calls_def)
    with q have "(Connect wfs_url, None) \<in> set t" by (auto simp: quiet_def list_all_iff)
    moreover from in_calls have "count_list (calls t) (Connect wfs_url) \<noteq> 0"
      by (simp add: count_list_0_iff)
    ultimately show ?thesis using c g by simp
  qed
  with c g show ?thesis by (simp add: fetched_once_def m)
qed

lemma wfs_cell_connects: "count_list (calls (fst (wfs_cell ft cwd files []))) (Connect wfs_url) = 1"
proof -
  from wfs_cell_trace [of ft cwd files "[]"] obtain x rest
    where tr: "fst (wfs_cell ft cwd files []) = [] @ (Connect wfs_url, x) # rest" by auto
  from wfs_cell_connect_at_most tr have "count_list (calls ((Connect wfs_url, x) # rest)) (Connect wfs_url) \<le> 1"
    by (rule at_most_new)
  with tr show ?thesis by (simp add: calls_def)
qed

text \<open>
  C4, as the code has it. In every run of the pathlib, the processing and the
  reference system notebook the first call that raises is the last call of the run and
  its error is the result of the run; in particular a failure that the environment
  causes at any call (a file that cannot be read or written, a request that fails, a
  reference system that cannot be converted) is the result, unchanged, and no call
  follows it. The same holds of the vector I/O notebook and of its WFS script alone,
  except that after a failure of \<open>response.read()\<close> or \<open>f.write()\<close> the \<open>with\<close>
  block closes the file, and the error of the close is the result when the close fails
  as well. No call is repeated: the service object is created at most once in a run,
  once in every run of the WFS script; the layer is fetched once when the service
  object was created and not at all otherwise, so once in every run to the end.
\<close>

theorem errors_end_the_run:
  "propagates ft (pathlib_notebook ft cwd files []) \<and>
   propagates ft (processing_notebook ft area cwd files []) \<and>
   propagates ft (crs_notebook ft urls to_crs []) \<and>
   closes_and_propagates ft (vector_io_notebook ft cwd files urls []) \<and>
   closes_and_propagates ft (wfs_cell ft cwd files []) \<and>
   fetched_once (vector_io_notebook ft cwd files urls []) \<and>
   fetched_once (wfs_cell ft cwd files []) \<and>
   count_list (calls (fst (wfs_cell ft cwd files []))) (Connect wfs_url) = 1"
proof -
  have "fetched_once (vector_io_notebook ft cwd files urls [])"
    using fetching_vector_io closing_vector_io
  proof (rule fetched_once_run)
    fix t v
    assume "vector_io_notebook ft cwd files urls [] = (t, Inr v)"
    from vector_io_notebook_Inr [OF this]
    show "Connect wfs_url \<in> set (calls t)"
      by (auto simp: vector_io_calls_def wfs_calls_def calls_def)
  qed
  moreover have "fetched_once (wfs_cell ft cwd files [])"
    using fetching_wfs_cell closing_wfs_cell
  proof (rule fetched_once_run)
    fix t v
    assume "wfs_cell ft cwd files [] = (t, Inr v)"
    from wfs_cell_Inr [OF this]
    show "Connect wfs_url \<in> set (calls t)"
      by (auto simp: wfs_calls_def calls_def)
  qed
  ultimately show ?thesis
    using faithful_propagates [OF faithful_pathlib, of ft cwd files]
      faithful_propagates [OF faithful_processing, of ft area cwd files]
      faithful_propagates [OF faithful_crs, of ft urls to_crs]
      closing_run [OF closing_vector_io, of ft cwd files urls]
      closing_run [OF closing_wfs_cell, of ft cwd files]
      wfs_cell_connects [of ft cwd files]
    by simp
qed


text \<open>
  A run of the WFS script in which \<open>response.read()\<close> fails, a run of the pathlib
  notebook in which the shapefile cannot be read, and a run of the vector I/O notebook
  to its end.
\<close>

theorem errors_end_the_run_witness:
  "wfs_cell (fault_at 3) ex_cwd (\<lambda>p. Inr ex_points) [] =
     ([(Connect wfs_url, None), (GetFeature layer_name, None),
       (OpenWrite \<lparr>anchor = ''/'', parts = [''nb'', ''cykelpump_punkt.gml'']\<rparr>, None),
       (Method ''read'', Some (LibraryError ''failed'')), (Method ''close'', None)],
      Inl (LibraryError ''failed'')) \<and>
   unwinds (fst (wfs_cell (fault_at 3) ex_cwd (\<lambda>p. Inr ex_points) []))
     (Some (LibraryError ''failed'')) \<and>
   count_list (calls (fst (wfs_cell (fault_at 3) ex_cwd (\<lambda>p. Inr ex_points) [])))
     (GetFeature layer_name) = 1 \<and>
   length (fst (pathlib_notebook (fault_at 5) ex_cwd (\<lambda>p. Inr ex_points) [])) = 6 \<and>
   snd (pathlib_notebook (fault_at 5) ex_cwd (\<lambda>p. Inr ex_points) []) =
     Inl (LibraryError ''failed'') \<and>
   failure_is_result (fault_at 5) (pathlib_notebook (fault_at 5) ex_cwd (\<lambda>p. Inr ex_points) []) 5 \<and>
   raised (snd (vector_io_notebook no_faults ex_cwd (\<lambda>p. Inr ex_points) (\<lambda>u. Inr ex_frame) [])) =
     None \<and>
   count_list (calls (fst (vector_io_notebook no_faults ex_cwd (\<lambda>p. Inr ex_points)
     (\<lambda>u. Inr ex_frame) []))) (Connect wfs_url) = 1 \<and>
   count_list (calls (fst (vector_io_notebook no_faults ex_cwd (\<lambda>p. Inr ex_points)
     (\<lambda>u. Inr ex_frame) []))) (GetFeature layer_name) = 1"
proof -
  let ?w = "wfs_cell (fault_at 3) ex_cwd (\<lambda>p. Inr ex_points) []"
  let ?p = "pathlib_notebook (fault_at 5) ex_cwd (\<lambda>p. Inr ex_points) []"
  let ?v = "vector_io_notebook no_faults ex_cwd (\<lambda>p. Inr ex_points) (\<lambda>u. Inr ex_frame) []"
  have w: "?w =
     ([(Connect wfs_url, None), (GetFeature layer_name, None),
       (OpenWrite \<lparr>anchor = ''/'', parts = [''nb'', ''cykelpump_punkt.gml'']\<rparr>, None),
       (Method ''read'', Some (LibraryError ''failed'')), (Method ''close'', None)],
      Inl (LibraryError ''failed''))"
    by code_simp
  have p: "length (fst ?p) = 6" "snd ?p = Inl (LibraryError ''failed'')"
    by (simp_all add: pathlib_notebook_def then_do_lib invoke_def fault_at_def)
  have v: "raised (snd ?v) = None"
    using ex_run_points by simp
  note T = errors_end_the_run
  from T [of "fault_at 3" ex_cwd "\<lambda>p. Inr ex_points" planar_area "\<lambda>u. Inr ex_frame" "\<lambda>d. Inr d"]
  have "closes_and_propagates (fault_at 3) ?w" and "fetched_once ?w"
    by simp_all
  with w have w1: "unwinds (fst ?w) (Some (LibraryError ''failed''))"
    and w2: "count_list (calls (fst ?w)) (GetFeature layer_name) = 1"
    by (simp_all add: closes_and_propagates_def fetched_once_def)
  from T [of "fault_at 5" ex_cwd "\<lambda>p. Inr ex_points" planar_area "\<lambda>u. Inr ex_frame" "\<lambda>d. Inr d"]
  have "propagates (fault_at 5) ?p" by simp
  then have p1: "failure_is_result (fault_at 5) ?p 5" by (simp add: propagates_def)
  from T [of no_faults ex_cwd "\<lambda>p. Inr ex_points" planar_area "\<lambda>u. Inr ex_frame" "\<lambda>d. Inr d"]
  have "fetched_once ?v" by simp
  with v have v1: "count_list (calls (fst ?v)) (Connect wfs_url) = 1"
    and v2: "count_list (calls (fst ?v)) (GetFeature layer_name) = 1"
    by (simp_all add: fetched_once_def case_prod_unfold)
  from w w1 w2 p p1 v v1 v2 show ?thesis by simp
qed

text \<open>
  The claim as stated, that the fetch is attempted exactly once per run, fails in the
  runs that end before the fetch. When the first shapefile of the vector I/O notebook
  cannot be read, the run ends there and the WFS script is never reached: no service
  object is created and no layer is fetched. And when the creation of the service
  object fails in the WFS script, the run ends with that error and the layer is not
  fetched.
\<close>

theorem errors_end_the_run_counterexample:
  "vector_io_notebook (fault_at 2) ex_cwd (\<lambda>p. Inr ex_points) (\<lambda>u. Inr ex_frame) [] =
     ([(Resolve, None), (Method ''supported_drivers'', None),
       (ReadFile \<lparr>anchor = ''/'', parts = [''nb'', ''data'', ''UGA_adm1_2011.shp'']\<rparr>,
        Some (LibraryError ''failed''))],
      Inl (LibraryError ''failed'')) \<and>
   count_list (calls (fst (vector_io_notebook (fault_at 2) ex_cwd (\<lambda>p. Inr ex_points)
     (\<lambda>u. Inr ex_frame) []))) (Connect wfs_url) = 0 \<and>
   count_list (calls (fst (vector_io_notebook (fault_at 2) ex_cwd (\<lambda>p. Inr ex_points)
     (\<lambda>u. Inr ex_frame) []))) (GetFeature layer_name) = 0 \<and>
   wfs_cell (fault_at 0) ex_cwd (\<lambda>p. Inr ex_points) [] =
     ([(Connect wfs_url, Some (LibraryError ''failed''))], Inl (LibraryError ''failed'')) \<and>
   count_list (calls (fst (wfs_cell (fault_at 0) ex_cwd (\<lambda>p. Inr ex_points) [])))
     (GetFeature layer_name) = 0"
  by (simp add: vector_io_notebook_def wfs_cell_def then_do_lib invoke_def fault_at_def calls_def
      NOTEBOOK_PATH_def truediv_file_name is_file_name_def ex_cwd_def)

end
